theory Spec2Isabelle
  imports Main "HOL-Library.Sublist"
begin

section \<open>Data model\<close>

text \<open>
  A shallow embedding of the job orchestration and caching pipeline:
  \<^verbatim>\<open>motion_pipeline.py\<close> (fingerprint, artifact cache, the four stages),
  \<^verbatim>\<open>transcribe.py\<close> and \<^verbatim>\<open>beat_analysis.py\<close> (the two cached engines) and the
  queue and worker of \<^verbatim>\<open>app.py\<close> over the \<^verbatim>\<open>Job\<close> rows of \<^verbatim>\<open>models.py\<close>.

  Paths and file contents are byte strings. The file system is a map from paths to
  contents; a path that is not in the map cannot be opened. Writing a file is one
  update of the map.

  What the model takes for granted:
  \<^item> a file is written in one step (no write stops half way);
  \<^item> the operations on the database session (\<^verbatim>\<open>get\<close>, \<^verbatim>\<open>add\<close>, \<^verbatim>\<open>commit\<close>) do not raise,
    and the primary keys are handed out in increasing order;
  \<^item> the working directory of the process is the directory of the source files, so that
    the renderer's \<^verbatim>\<open>segments.json\<close> and \<^verbatim>\<open>beats.json\<close> are the files the pipeline writes;
  \<^item> Manim's output directory is listed apart from the other files, and only Manim
    changes it;
  \<^item> the request threads and the worker thread are interleaved at the grain of one
    \<^verbatim>\<open>enqueue_job\<close> call and one pass of the worker's loop: the worker is a sequential
    loop and is the only writer of a job's row after its creation.
\<close>

type_synonym path = string
type_synonym content = string

text \<open>
  Every exception of the pipeline is an instance of Python's \<^verbatim>\<open>Exception\<close>; the worker
  only ever looks at \<^verbatim>\<open>str(e)\<close>, so an exception is modelled by its message.
\<close>

datatype exn = Exception string

fun str :: "exn \<Rightarrow> string" where
  "str (Exception m) = m"

text \<open>
  The invocations of the external engines, in the order in which they happen. An
  invocation of Whisper or Librosa is recorded with its outcome, an invocation of
  Manim with its command line and with the contents of the two workspace files that
  the scene \<^verbatim>\<open>FarsiKinetic\<close> opens (\<^verbatim>\<open>SEGMENTS_FILE\<close>, \<^verbatim>\<open>BEATS_FILE\<close> of \<^verbatim>\<open>motion.py\<close>).
\<close>

datatype call =
    Transcribe path "string + content"
  | BeatTrack path "string + content"
  | Manim "string list" "content option" "content option"
  | Ffmpeg "string list"

text \<open>
  The world the pipeline runs in: the files, the listing of Manim's output directory
  (path, modification time, content of each file matching the glob pattern of
  \<^verbatim>\<open>_run_manim\<close>) and the engine invocations so far.
\<close>

record world =
  files :: "path \<rightharpoonup> content"
  media :: "(path \<times> nat \<times> content) list"
  calls :: "call list"

text \<open>
  What the program does not determine: the directory of the source files, the hash
  function, the engines, the clock and the random generator. An engine is a function of
  the world at the time of the call, so it may answer differently each time. \<open>Inl m\<close>
  is an exception with message \<open>m\<close> raised by the engine (for Manim and ffmpeg the
  \<^verbatim>\<open>CalledProcessError\<close> of \<^verbatim>\<open>subprocess.run(cmd, check=True)\<close>).
  \<^item> \<open>whisper\<close>: \<^verbatim>\<open>whisper.load_model\<close>, \<^verbatim>\<open>model.transcribe\<close> and the
    normalisation of the segments in \<^verbatim>\<open>transcribe_audio\<close>, as the JSON text that
    \<^verbatim>\<open>json.dump\<close> writes;
  \<^item> \<open>librosa\<close>: \<^verbatim>\<open>librosa.load\<close>, \<^verbatim>\<open>beat_track\<close>, \<^verbatim>\<open>frames_to_time\<close> in
    \<^verbatim>\<open>analyze_beats\<close>, as JSON text;
  \<^item> \<open>manim\<close>: the renderer, given its command line and the two workspace files it
    reads; on success it leaves a new listing of its output directory;
  \<^item> \<open>ffmpeg\<close>: the compositor, giving the content written to its output path;
  \<^item> \<open>strftime_now\<close>: \<^verbatim>\<open>datetime.datetime.now().strftime("%Y%m%d_%H%M%S")\<close>;
  \<^item> \<open>random_draw\<close>: the index drawn for the \<open>i\<close>-th character by \<^verbatim>\<open>random.choices\<close>.
\<close>

record env =
  BASE_DIR :: path
  md5_hexdigest :: "content \<Rightarrow> string"
  whisper :: "world \<Rightarrow> path \<Rightarrow> string + content"
  librosa :: "world \<Rightarrow> path \<Rightarrow> string + content"
  manim :: "world \<Rightarrow> string list \<Rightarrow> content option \<Rightarrow> content option
              \<Rightarrow> string + (path \<times> nat \<times> content) list"
  ffmpeg :: "world \<Rightarrow> string list \<Rightarrow> string + content"
  strftime_now :: "world \<Rightarrow> string"
  random_draw :: "world \<Rightarrow> nat \<Rightarrow> nat"

section \<open>Paths\<close>

text \<open>\<^verbatim>\<open>os.path.join\<close> of two components (posixpath).\<close>

definition path_join :: "path \<Rightarrow> path \<Rightarrow> path" where
  "path_join a b =
     (if b \<noteq> [] \<and> hd b = CHR ''/'' then b
      else if a = [] \<or> last a = CHR ''/'' then a @ b
      else a @ ''/'' @ b)"

text \<open>
  \<^verbatim>\<open>Path(p).suffix\<close>: the last dot of the final component and what follows it, empty
  when there is no dot, when the only dot leads the name or when the name ends with it.
\<close>

definition basename :: "path \<Rightarrow> string" where
  "basename p = rev (takeWhile (\<lambda>c. c \<noteq> CHR ''/'') (rev p))"

definition suffix_of :: "path \<Rightarrow> string" where
  "suffix_of p =
     (let name = basename p;
          ext = rev (takeWhile (\<lambda>c. c \<noteq> CHR ''.'') (rev name))
      in if CHR ''.'' \<notin> set name \<or> ext = [] \<or> length ext + 1 = length name then []
         else CHR ''.'' # ext)"

definition SCENE_NAME :: string where
  "SCENE_NAME = ''FarsiKinetic''"

definition MOTION_FILE :: string where
  "MOTION_FILE = ''motion.py''"

definition CACHE_DIR :: "env \<Rightarrow> path" where
  "CACHE_DIR E = path_join (BASE_DIR E) ''cache''"

definition MEDIA_DIR :: "env \<Rightarrow> path" where
  "MEDIA_DIR E = path_join (BASE_DIR E) ''media''"

definition OUTPUT_DIR :: "env \<Rightarrow> path" where
  "OUTPUT_DIR E = path_join (BASE_DIR E) ''outputs''"

text \<open>The two cache files of a fingerprint and the two fixed workspace files.\<close>

definition seg_cache :: "env \<Rightarrow> string \<Rightarrow> path" where
  "seg_cache E audio_hash = path_join (CACHE_DIR E) (''segments_'' @ audio_hash @ ''.json'')"

definition beats_cache :: "env \<Rightarrow> string \<Rightarrow> path" where
  "beats_cache E audio_hash = path_join (CACHE_DIR E) (''beats_'' @ audio_hash @ ''.json'')"

definition segments_json :: "env \<Rightarrow> path" where
  "segments_json E = path_join (BASE_DIR E) ''segments.json''"

definition beats_json :: "env \<Rightarrow> path" where
  "beats_json E = path_join (BASE_DIR E) ''beats.json''"

section \<open>The pipeline (\<^verbatim>\<open>motion_pipeline.py\<close>)\<close>

text \<open>
  A function that may raise returns \<open>(Inl e, w)\<close> or \<open>(Inr v, w)\<close> with the world
  it leaves behind: what was written before the exception stays written.
\<close>

text \<open>
  \<^verbatim>\<open>_hash_file\<close>: \<^verbatim>\<open>open(path, "rb")\<close> raises when the file cannot be read; otherwise
  the chunks are fed to MD5 one after the other, which hashes their concatenation.
\<close>

definition hash_file :: "env \<Rightarrow> path \<Rightarrow> world \<Rightarrow> exn + string" where
  "hash_file E p w =
     (case files w p of
        None \<Rightarrow> Inl (Exception (''[Errno 2] No such file or directory: '' @ p))
      | Some data \<Rightarrow> Inr (md5_hexdigest E data))"

text \<open>\<^verbatim>\<open>random.choices(population, k=k)\<close> and \<^verbatim>\<open>_unique_id\<close>.\<close>

definition random_choices :: "env \<Rightarrow> world \<Rightarrow> string \<Rightarrow> nat \<Rightarrow> string" where
  "random_choices E w population k =
     map (\<lambda>i. population ! (random_draw E w i mod length population)) [0..<k]"

definition unique_id :: "env \<Rightarrow> world \<Rightarrow> string" where
  "unique_id E w =
     (let ts = strftime_now E w;
          rnd = random_choices E w ''abcdefghijklmnopqrstuvwxyz0123456789'' 4
      in ts @ ''_'' @ rnd)"

text \<open>
  \<^verbatim>\<open>transcribe_audio\<close> and \<^verbatim>\<open>analyze_beats\<close>: the engine runs first; only when it
  has returned is \<open>out_path\<close> opened and written.
\<close>

definition transcribe_audio :: "env \<Rightarrow> path \<Rightarrow> path \<Rightarrow> world \<Rightarrow> (exn + path) \<times> world" where
  "transcribe_audio E apath out_path w =
     (let result = whisper E w apath;
          w1 = w\<lparr>calls := calls w @ [Transcribe apath result]\<rparr>
      in case result of
           Inl m \<Rightarrow> (Inl (Exception m), w1)
         | Inr segments \<Rightarrow> (Inr out_path, w1\<lparr>files := (files w1)(out_path \<mapsto> segments)\<rparr>))"

definition analyze_beats :: "env \<Rightarrow> path \<Rightarrow> path \<Rightarrow> world \<Rightarrow> (exn + path) \<times> world" where
  "analyze_beats E apath out_path w =
     (let result = librosa E w apath;
          w1 = w\<lparr>calls := calls w @ [BeatTrack apath result]\<rparr>
      in case result of
           Inl m \<Rightarrow> (Inl (Exception m), w1)
         | Inr beats \<Rightarrow> (Inr out_path, w1\<lparr>files := (files w1)(out_path \<mapsto> beats)\<rparr>))"

text \<open>\<^verbatim>\<open>shutil.copy(src, dst)\<close> between files: \<open>dst\<close> is created or overwritten.\<close>

definition shutil_copy :: "path \<Rightarrow> path \<Rightarrow> world \<Rightarrow> (exn + path) \<times> world" where
  "shutil_copy src dst w =
     (case files w src of
        None \<Rightarrow> (Inl (Exception (''[Errno 2] No such file or directory: '' @ src)), w)
      | Some data \<Rightarrow> (Inr dst, w\<lparr>files := (files w)(dst \<mapsto> data)\<rparr>))"

text \<open>
  \<^verbatim>\<open>_run_manim\<close>: an unknown quality flag is replaced by \<open>h\<close>; the renderer runs; the
  newest file matching the pattern is returned (\<^verbatim>\<open>sort\<close> is stable and the last
  element is taken), and no match raises \<^verbatim>\<open>FileNotFoundError\<close>.
\<close>

definition effective_quality :: "string \<Rightarrow> string" where
  "effective_quality quality =
     (if quality \<notin> {''l'', ''m'', ''h'', ''p'', ''k''} then ''h'' else quality)"

definition manim_cmd :: "string \<Rightarrow> string list" where
  "manim_cmd quality =
     [''manim'', ''-q'' @ effective_quality quality, ''-t'', MOTION_FILE, SCENE_NAME]"

definition manim_pattern :: "env \<Rightarrow> string" where
  "manim_pattern E =
     path_join (path_join (path_join (path_join (MEDIA_DIR E) ''videos'') ''motion'') ''*'')
       (SCENE_NAME @ ''.*'')"

definition run_manim :: "env \<Rightarrow> string \<Rightarrow> world \<Rightarrow> (exn + path) \<times> world" where
  "run_manim E quality w =
     (let cmd = manim_cmd quality;
          w1 = w\<lparr>calls := calls w @ [Manim cmd (files w (segments_json E)) (files w (beats_json E))]\<rparr>
      in case manim E w cmd (files w (segments_json E)) (files w (beats_json E)) of
           Inl m \<Rightarrow> (Inl (Exception m), w1)
         | Inr listing \<Rightarrow>
             (let w2 = w1\<lparr>media := listing\<rparr>;
                  matches = media w2
              in if matches = []
                 then (Inl (Exception (''Could not find Manim output with pattern: ''
                                        @ manim_pattern E)), w2)
                 else (Inr (fst (last (sort_key (\<lambda>f. fst (snd f)) matches))), w2)))"

text \<open>\<^verbatim>\<open>_overlay_video\<close>: \<^verbatim>\<open>ffmpeg -y\<close> writes \<open>output\<close>, replacing a file that is there.\<close>

definition ffmpeg_cmd :: "path \<Rightarrow> path \<Rightarrow> path \<Rightarrow> path \<Rightarrow> string list" where
  "ffmpeg_cmd base_video overlay_video audio output =
     [''ffmpeg'', ''-y'',
      ''-stream_loop'', ''-1'', ''-i'', base_video,
      ''-i'', overlay_video,
      ''-i'', audio,
      ''-filter_complex'',
      ''[1:v]scale=iw:-1[fg];[0:v][fg]overlay=(W-w)/2:(H-h)/2:format=auto[vout]'',
      ''-map'', ''[vout]'',
      ''-map'', ''2:a'',
      ''-c:v'', ''libx264'',
      ''-c:a'', ''aac'',
      ''-shortest'',
      output]"

definition overlay_video :: "env \<Rightarrow> path \<Rightarrow> path \<Rightarrow> path \<Rightarrow> path \<Rightarrow> world \<Rightarrow> (exn + unit) \<times> world" where
  "overlay_video E base_video overlay audio output w =
     (let cmd = ffmpeg_cmd base_video overlay audio output;
          w1 = w\<lparr>calls := calls w @ [Ffmpeg cmd]\<rparr>
      in case ffmpeg E w cmd of
           Inl m \<Rightarrow> (Inl (Exception m), w1)
         | Inr video \<Rightarrow> (Inr (), w1\<lparr>files := (files w1)(output \<mapsto> video)\<rparr>))"

text \<open>
  The status messages are Persian string literals in the source; each constructor
  stands for one of them.
\<close>

datatype message =
    MsgQueued | MsgStarting | MsgHashing
  | MsgUsingTextCache | MsgTranscribing
  | MsgUsingBeatCache | MsgAnalysingBeats
  | MsgRendering | MsgCompositing | MsgFinished | MsgJobError

text \<open>
  \<^verbatim>\<open>_update\<close>: the progress callback, when there is one, acts on the caller's state
  \<open>'d\<close> (the job store); it returns nothing to the pipeline.
\<close>

definition update :: "(int \<Rightarrow> message \<Rightarrow> 'd \<Rightarrow> 'd) option \<Rightarrow> int \<Rightarrow> message \<Rightarrow> 'd \<Rightarrow> 'd" where
  "update progress_callback p msg d =
     (case progress_callback of None \<Rightarrow> d | Some cb \<Rightarrow> cb p msg d)"

text \<open>The block \<^verbatim>\<open># segments.json\<close> of \<^verbatim>\<open>process_job\<close>.\<close>

definition process_job_segments ::
  "env \<Rightarrow> (int \<Rightarrow> message \<Rightarrow> 'd \<Rightarrow> 'd) option \<Rightarrow> path \<Rightarrow> string \<Rightarrow> 'd \<Rightarrow> world
     \<Rightarrow> (exn + unit) \<times> 'd \<times> world" where
  "process_job_segments E cb apath audio_hash d w =
     (if files w (seg_cache E audio_hash) \<noteq> None
      then (let d1 = update cb 15 MsgUsingTextCache d in
            case shutil_copy (seg_cache E audio_hash) (segments_json E) w of
              (Inl e, w1) \<Rightarrow> (Inl e, d1, w1)
            | (Inr _, w1) \<Rightarrow> (Inr (), d1, w1))
      else (let d1 = update cb 15 MsgTranscribing d in
            case transcribe_audio E apath (seg_cache E audio_hash) w of
              (Inl e, w1) \<Rightarrow> (Inl e, d1, w1)
            | (Inr _, w1) \<Rightarrow>
                (case shutil_copy (seg_cache E audio_hash) (segments_json E) w1 of
                   (Inl e, w2) \<Rightarrow> (Inl e, d1, w2)
                 | (Inr _, w2) \<Rightarrow> (Inr (), d1, w2))))"

text \<open>The block \<^verbatim>\<open># beats.json\<close> of \<^verbatim>\<open>process_job\<close>.\<close>

definition process_job_beats ::
  "env \<Rightarrow> (int \<Rightarrow> message \<Rightarrow> 'd \<Rightarrow> 'd) option \<Rightarrow> path \<Rightarrow> string \<Rightarrow> 'd \<Rightarrow> world
     \<Rightarrow> (exn + unit) \<times> 'd \<times> world" where
  "process_job_beats E cb apath audio_hash d w =
     (if files w (beats_cache E audio_hash) \<noteq> None
      then (let d1 = update cb 35 MsgUsingBeatCache d in
            case shutil_copy (beats_cache E audio_hash) (beats_json E) w of
              (Inl e, w1) \<Rightarrow> (Inl e, d1, w1)
            | (Inr _, w1) \<Rightarrow> (Inr (), d1, w1))
      else (let d1 = update cb 35 MsgAnalysingBeats d in
            case analyze_beats E apath (beats_cache E audio_hash) w of
              (Inl e, w1) \<Rightarrow> (Inl e, d1, w1)
            | (Inr _, w1) \<Rightarrow>
                (case shutil_copy (beats_cache E audio_hash) (beats_json E) w1 of
                   (Inl e, w2) \<Rightarrow> (Inl e, d1, w2)
                 | (Inr _, w2) \<Rightarrow> (Inr (), d1, w2))))"

text \<open>
  The rest of \<^verbatim>\<open>process_job\<close>: render, copy the overlay beside the output under a
  fresh token, composite. The overlay is read from Manim's output directory.
\<close>

definition copy_from_media :: "path \<Rightarrow> path \<Rightarrow> world \<Rightarrow> (exn + path) \<times> world" where
  "copy_from_media src dst w =
     (case map_of (map (\<lambda>(p, t, c). (p, c)) (media w)) src of
        None \<Rightarrow> (Inl (Exception (''[Errno 2] No such file or directory: '' @ src)), w)
      | Some data \<Rightarrow> (Inr dst, w\<lparr>files := (files w)(dst \<mapsto> data)\<rparr>))"

definition process_job_render ::
  "env \<Rightarrow> (int \<Rightarrow> message \<Rightarrow> 'd \<Rightarrow> 'd) option \<Rightarrow> path \<Rightarrow> path \<Rightarrow> path \<Rightarrow> string \<Rightarrow> 'd \<Rightarrow> world
     \<Rightarrow> (exn + path) \<times> 'd \<times> world" where
  "process_job_render E cb apath vpath output_dir quality d w =
     (let d1 = update cb 55 MsgRendering d in
      case run_manim E quality w of
        (Inl e, w1) \<Rightarrow> (Inl e, d1, w1)
      | (Inr manim_out, w1) \<Rightarrow>
          (let uid = unique_id E w1;
               overlay_src = path_join output_dir (''manim_'' @ uid @ suffix_of manim_out)
           in case copy_from_media manim_out overlay_src w1 of
                (Inl e, w2) \<Rightarrow> (Inl e, d1, w2)
              | (Inr _, w2) \<Rightarrow>
                  (let final_output = path_join output_dir (''final_'' @ uid @ ''.mp4'');
                       d2 = update cb 80 MsgCompositing d1
                   in case overlay_video E vpath overlay_src apath final_output w2 of
                        (Inl e, w3) \<Rightarrow> (Inl e, d2, w3)
                      | (Inr _, w3) \<Rightarrow> (Inr final_output, update cb 100 MsgFinished d2, w3))))"

text \<open>\<^verbatim>\<open>process_job\<close>: fingerprint, transcript, beats, render and composite.\<close>

definition process_job ::
  "env \<Rightarrow> path \<Rightarrow> path \<Rightarrow> path \<Rightarrow> (int \<Rightarrow> message \<Rightarrow> 'd \<Rightarrow> 'd) option \<Rightarrow> string \<Rightarrow> 'd \<Rightarrow> world
     \<Rightarrow> (exn + path) \<times> 'd \<times> world" where
  "process_job E apath vpath output_dir cb quality d w =
     (let d1 = update cb 5 MsgHashing d in
      case hash_file E apath w of
        Inl e \<Rightarrow> (Inl e, d1, w)
      | Inr audio_hash \<Rightarrow>
          (case process_job_segments E cb apath audio_hash d1 w of
             (Inl e, d2, w1) \<Rightarrow> (Inl e, d2, w1)
           | (Inr _, d2, w1) \<Rightarrow>
               (case process_job_beats E cb apath audio_hash d2 w1 of
                  (Inl e, d3, w2) \<Rightarrow> (Inl e, d3, w2)
                | (Inr _, d3, w2) \<Rightarrow>
                    process_job_render E cb apath vpath output_dir quality d3 w2)))"

section \<open>Job records, queue and worker (\<^verbatim>\<open>models.py\<close>, \<^verbatim>\<open>app.py\<close>)\<close>

datatype status = Queued | Running | Done | Error

text \<open>
  The columns of \<^verbatim>\<open>Job\<close> and \<^verbatim>\<open>Media\<close> that the queue and the worker read or write.
  A nullable column is an option. The primary key is the key of the map \<open>jobs\<close>.
\<close>

record job =
  project_id :: nat
  audio_path :: path
  video_path :: path
  output_path :: "path option"
  status :: status
  progress :: int
  message :: message
  error :: "string option"
  created_at :: nat

record media_row =
  media_project_id :: nat
  media_job_id :: "nat option"
  file_path :: path
  media_type :: string

text \<open>
  The database: the job rows, the next primary key, the media rows, and \<open>history\<close>,
  the sequence of job states made durable by \<^verbatim>\<open>db.commit()\<close> (job id, status,
  progress), which is what a polling client can observe.
\<close>

record db =
  jobs :: "nat \<rightharpoonup> job"
  next_id :: nat
  medias :: "media_row list"
  history :: "(nat \<times> status \<times> int) list"

definition commit_job :: "nat \<Rightarrow> job \<Rightarrow> db \<Rightarrow> db" where
  "commit_job job_id j d =
     d\<lparr>jobs := (jobs d)(job_id \<mapsto> j),
       history := history d @ [(job_id, status j, progress j)]\<rparr>"

text \<open>
  The process: the database, the in-memory \<^verbatim>\<open>queue.Queue\<close> (its items and its
  counter of unfinished tasks), whether the worker thread is still running, and the
  world of the pipeline.
\<close>

record system =
  db :: db
  JOB_QUEUE :: "nat list"
  unfinished_tasks :: nat
  worker_alive :: bool
  fs :: world

definition init_system :: "world \<Rightarrow> system" where
  "init_system w =
     \<lparr>db = \<lparr>jobs = Map.empty, next_id = 1, medias = [], history = []\<rparr>,
      JOB_QUEUE = [], unfinished_tasks = 0, worker_alive = True, fs = w\<rparr>"

text \<open>
  \<^verbatim>\<open>enqueue_job\<close>: a new row with status queued and progress 0 is committed, then its
  id is put at the tail of the queue. \<open>now\<close> is the clock's reading.
\<close>

definition enqueue_job :: "nat \<Rightarrow> path \<Rightarrow> path \<Rightarrow> nat \<Rightarrow> system \<Rightarrow> nat \<times> system" where
  "enqueue_job pid apath vpath now s =
     (let job_id = next_id (db s);
          j = \<lparr>project_id = pid, audio_path = apath, video_path = vpath,
               output_path = None, status = Queued, progress = 0,
               message = MsgQueued, error = None, created_at = now\<rparr>;
          d = commit_job job_id j ((db s)\<lparr>next_id := Suc job_id\<rparr>)
      in (job_id, s\<lparr>db := d, JOB_QUEUE := JOB_QUEUE s @ [job_id],
                     unfinished_tasks := Suc (unfinished_tasks s)\<rparr>))"

text \<open>
  \<^verbatim>\<open>Queue.task_done\<close> raises \<^verbatim>\<open>ValueError\<close> (here \<open>None\<close>) when it is called more often
  than items were put.
\<close>

definition task_done :: "system \<Rightarrow> system option" where
  "task_done s =
     (if unfinished_tasks s = 0 then None
      else Some (s\<lparr>unfinished_tasks := unfinished_tasks s - 1\<rparr>))"

text \<open>
  The \<^verbatim>\<open>finally\<close> block of the loop body. An exception that leaves it leaves the
  \<^verbatim>\<open>while\<close> loop too, and the worker thread ends.
\<close>

definition finally_block :: "system \<Rightarrow> system" where
  "finally_block s =
     (case task_done s of None \<Rightarrow> s\<lparr>worker_alive := False\<rparr> | Some s1 \<Rightarrow> s1)"

text \<open>
  \<^verbatim>\<open>progress_callback\<close>, the closure handed to the pipeline: it loads the row again,
  does nothing when it is gone, and otherwise clamps the percentage, overwrites
  progress and message and commits.
\<close>

definition progress_callback :: "nat \<Rightarrow> int \<Rightarrow> message \<Rightarrow> db \<Rightarrow> db" where
  "progress_callback job_id percent msg d =
     (case jobs d job_id of
        None \<Rightarrow> d
      | Some j \<Rightarrow> commit_job job_id (j\<lparr>progress := max 0 (min 100 percent), message := msg\<rparr>) d)"

text \<open>The call of the pipeline in the worker, with the arguments the worker gives it.\<close>

definition run_pipeline :: "env \<Rightarrow> nat \<Rightarrow> job \<Rightarrow> db \<Rightarrow> world \<Rightarrow> (exn + path) \<times> db \<times> world" where
  "run_pipeline E job_id j d w =
     process_job E (audio_path j) (video_path j) (OUTPUT_DIR E)
       (Some (progress_callback job_id)) ''h'' d w"

text \<open>
  One pass through the body of \<^verbatim>\<open>while True\<close> in \<^verbatim>\<open>worker_loop\<close>. With an empty queue
  \<^verbatim>\<open>JOB_QUEUE.get()\<close> blocks and nothing changes. The callback changes only progress
  and message of the row, and both terminal updates overwrite these two, so the row
  written at the end is the row of the running update with the terminal fields set.
\<close>

definition worker_iteration :: "env \<Rightarrow> system \<Rightarrow> system" where
  "worker_iteration E s =
     (if \<not> worker_alive s then s
      else case JOB_QUEUE s of
        [] \<Rightarrow> s
      | job_id # rest \<Rightarrow>
          (let s0 = s\<lparr>JOB_QUEUE := rest\<rparr> in
           case jobs (db s0) job_id of
             None \<Rightarrow>
               (case task_done s0 of
                  None \<Rightarrow> finally_block s0
                | Some s1 \<Rightarrow> finally_block s1)
           | Some j \<Rightarrow>
               (let j1 = j\<lparr>status := Running, progress := 5, message := MsgStarting\<rparr>;
                    d1 = commit_job job_id j1 (db s0)
                in case run_pipeline E job_id j1 d1 (fs s0) of
                     (Inr out, d2, w) \<Rightarrow>
                       (let m = \<lparr>media_project_id = project_id j1, media_job_id = Some job_id,
                                 file_path = out, media_type = ''video''\<rparr>;
                            d3 = d2\<lparr>medias := medias d2 @ [m]\<rparr>;
                            j2 = j1\<lparr>status := Done, progress := 100, message := MsgFinished,
                                    output_path := Some out\<rparr>
                        in finally_block (s0\<lparr>db := commit_job job_id j2 d3, fs := w\<rparr>))
                   | (Inl e, d2, w) \<Rightarrow>
                       (let j2 = j1\<lparr>status := Error, progress := 0, message := MsgJobError,
                                    error := Some (str e)\<rparr>
                        in finally_block (s0\<lparr>db := commit_job job_id j2 d2, fs := w\<rparr>)))))"

text \<open>
  What happens to the process: a request thread enqueues a job, or the worker takes
  one pass through its loop.
\<close>

datatype event = Enqueue nat path path nat | Work

fun step :: "env \<Rightarrow> system \<Rightarrow> event \<Rightarrow> system" where
  "step E s (Enqueue pid apath vpath now) = snd (enqueue_job pid apath vpath now s)"
| "step E s Work = worker_iteration E s"

definition run :: "env \<Rightarrow> world \<Rightarrow> event list \<Rightarrow> system" where
  "run E w evs = foldl (step E) (init_system w) evs"

text \<open>
  \<^verbatim>\<open>worker_loop\<close>: the loop takes one job after the other; it stops being observed
  here when \<^verbatim>\<open>JOB_QUEUE.get()\<close> blocks on an empty queue, or when the thread has
  ended. Every pass removes one id from the queue, so the recursion ends.
\<close>

function worker_loop :: "env \<Rightarrow> system \<Rightarrow> system" where
  "worker_loop E s =
     (if worker_alive s \<and> JOB_QUEUE s \<noteq> [] then worker_loop E (worker_iteration E s) else s)"
  by pat_completeness auto
termination
  by (relation "measure (\<lambda>(E, s). length (JOB_QUEUE s))")
     (auto simp: worker_iteration_def finally_block_def task_done_def Let_def
           split: list.splits option.splits prod.splits sum.splits if_splits)

declare worker_loop.simps [simp del]

text \<open>
  What the pipeline returns for the job at the head of the queue, as the worker calls
  it: \<open>Inl e\<close> when it raises \<open>e\<close>. \<open>None\<close> when the queue is empty or
  the row is gone.
\<close>

definition head_job_result :: "env \<Rightarrow> system \<Rightarrow> (exn + path) option" where
  "head_job_result E s =
     (case JOB_QUEUE s of
        [] \<Rightarrow> None
      | job_id # rest \<Rightarrow>
          (case jobs (db s) job_id of
             None \<Rightarrow> None
           | Some j \<Rightarrow>
               (let j1 = j\<lparr>status := Running, progress := 5, message := MsgStarting\<rparr>
                in Some (fst (run_pipeline E job_id j1 (commit_job job_id j1 (db s)) (fs s))))))"

text \<open>
  A row deleted by another client of the database while its id waits in the queue.
  Nothing in the program deletes a job row; the worker's \<^verbatim>\<open>if not job\<close> and the
  callback's \<^verbatim>\<open>if not j\<close> are there for a deletion from outside.
\<close>

definition lose_row :: "nat \<Rightarrow> system \<Rightarrow> system" where
  "lose_row job_id s = s\<lparr>db := (db s)\<lparr>jobs := (jobs (db s))(job_id := None)\<rparr>\<rparr>"

section \<open>Observing a run\<close>

text \<open>The engine invocations that happened between two worlds of one run.\<close>

definition new_calls :: "world \<Rightarrow> world \<Rightarrow> call list" where
  "new_calls w w' = drop (length (calls w)) (calls w')"

fun is_transcribe :: "call \<Rightarrow> bool" where
  "is_transcribe (Transcribe _ _) = True"
| "is_transcribe _ = False"

fun is_beat_track :: "call \<Rightarrow> bool" where
  "is_beat_track (BeatTrack _ _) = True"
| "is_beat_track _ = False"

definition transcribe_calls :: "call list \<Rightarrow> nat" where
  "transcribe_calls cs = length (filter is_transcribe cs)"

definition beat_calls :: "call list \<Rightarrow> nat" where
  "beat_calls cs = length (filter is_beat_track cs)"

text \<open>An invocation of one of the two cached engines that raised.\<close>

fun engine_failed :: "call \<Rightarrow> bool" where
  "engine_failed (Transcribe _ (Inl _)) = True"
| "engine_failed (BeatTrack _ (Inl _)) = True"
| "engine_failed _ = False"

text \<open>A status from which the worker makes no further transition.\<close>

definition terminal :: "status \<Rightarrow> bool" where
  "terminal s = (s = Done \<or> s = Error)"

text \<open>
  The consistency of one job row: done goes with progress 100, an output path and no
  error detail; error goes with progress 0, an error detail and no output path.
\<close>

definition job_consistent :: "job \<Rightarrow> bool" where
  "job_consistent j =
     ((status j = Done \<longrightarrow> progress j = 100 \<and> output_path j \<noteq> None \<and> error j = None)
    \<and> (status j = Error \<longrightarrow> progress j = 0 \<and> error j \<noteq> None \<and> output_path j = None)
    \<and> (output_path j \<noteq> None \<longleftrightarrow> status j = Done)
    \<and> (error j \<noteq> None \<longleftrightarrow> status j = Error))"

text \<open>The committed states of one job, in order.\<close>

definition job_trace :: "nat \<Rightarrow> (nat \<times> status \<times> int) list \<Rightarrow> (status \<times> int) list" where
  "job_trace i h = map snd (filter (\<lambda>e. fst e = i) h)"

text \<open>
  The progress values of one job's committed states: before a terminal status each is
  in \<open>[0, 100]\<close> and not below the one before it (0 while queued); a done state has
  progress 100, an error state progress 0, and nothing follows a terminal state.
\<close>

fun progress_ok :: "int \<Rightarrow> (status \<times> int) list \<Rightarrow> bool" where
  "progress_ok prev [] = True"
| "progress_ok prev ((s, p) # rest) =
     (if s = Done then p = 100 \<and> rest = []
      else if s = Error then p = 0 \<and> rest = []
      else prev \<le> p \<and> 0 \<le> p \<and> p \<le> 100 \<and> (s = Queued \<longrightarrow> p = 0) \<and> progress_ok p rest)"

text \<open>
  Reading the history with a cursor on the job that is running (\<open>None\<close>: the
  worker is idle). A job may start or continue only when no other job is running, and
  may reach a terminal status only when it is the one running. The result is \<open>None\<close>
  when the history breaks this, else the cursor at the end.
\<close>

fun cursor :: "nat option \<Rightarrow> (nat \<times> status \<times> int) list \<Rightarrow> nat option option" where
  "cursor cur [] = Some cur"
| "cursor cur ((i, s, p) # h) =
     (case s of
        Queued \<Rightarrow> cursor cur h
      | Running \<Rightarrow> (if cur = None \<or> cur = Some i then cursor (Some i) h else None)
      | Done \<Rightarrow> (if cur = Some i then cursor None h else None)
      | Error \<Rightarrow> (if cur = Some i then cursor None h else None))"

text \<open>The jobs in the order they were enqueued, and in the order they finished.\<close>

definition created :: "(nat \<times> status \<times> int) list \<Rightarrow> nat list" where
  "created h = map fst (filter (\<lambda>e. fst (snd e) = Queued) h)"

definition finished :: "(nat \<times> status \<times> int) list \<Rightarrow> nat list" where
  "finished h = map fst (filter (\<lambda>e. terminal (fst (snd e))) h)"

text \<open>The reports of a run of the pipeline, applied to the database one by one.\<close>

definition reports :: "nat \<Rightarrow> db \<Rightarrow> (int \<times> message) list \<Rightarrow> db" where
  "reports i d ups = foldl (\<lambda>d (p, m). progress_callback i p m d) d ups"

text \<open>
  The invariant of the process between two events: the worker is alive, the queue's
  counter equals its length, the queued ids are distinct and belong to queued rows,
  every row is consistent and none is left running, every job's history is as
  \<open>progress_ok\<close> says, and the jobs have finished in the order they were enqueued.
\<close>

definition trace_ok :: "db \<Rightarrow> nat \<Rightarrow> bool" where
  "trace_ok d i =
     (case jobs d i of
        None \<Rightarrow> job_trace i (history d) = []
      | Some j \<Rightarrow>
          if status j = Queued then job_trace i (history d) = [(Queued, 0)]
          else progress_ok 0 (job_trace i (history d)))"

definition inv :: "system \<Rightarrow> bool" where
  "inv s \<longleftrightarrow>
     worker_alive s
   \<and> unfinished_tasks s = length (JOB_QUEUE s)
   \<and> distinct (JOB_QUEUE s)
   \<and> (\<forall>i \<in> set (JOB_QUEUE s). \<exists>j. jobs (db s) i = Some j \<and> status j = Queued)
   \<and> (\<forall>i j. jobs (db s) i = Some j \<longrightarrow>
          i < next_id (db s) \<and> job_consistent j \<and> status j \<noteq> Running)
   \<and> (\<forall>i. trace_ok (db s) i)
   \<and> cursor None (history (db s)) = Some None
   \<and> created (history (db s)) = finished (history (db s)) @ JOB_QUEUE s"

text \<open>The separator that \<open>path_join\<close> puts after its first component.\<close>

definition sep :: "path \<Rightarrow> string" where
  "sep a = (if a = [] \<or> last a = CHR ''/'' then [] else ''/'')"

section \<open>Concrete environments\<close>

text \<open>
  An environment in which every engine succeeds, the clock stands still and the
  random generator always draws index 0, and worlds to run it in.
\<close>

definition demo_env :: env where
  "demo_env =
     \<lparr>BASE_DIR = ''/app'',
      md5_hexdigest = (\<lambda>data. data),
      whisper = (\<lambda>w p. Inr ''[segments]''),
      librosa = (\<lambda>w p. Inr ''[beats]''),
      manim = (\<lambda>w cmd s b.
                 Inr [(''/app/media/videos/motion/1080p60/FarsiKinetic.mov'', 1, ''overlay'')]),
      ffmpeg = (\<lambda>w cmd. Inr (''video'' @ replicate (length (calls w)) CHR ''+'')),
      strftime_now = (\<lambda>w. ''20240101_120000''),
      random_draw = (\<lambda>w i. 0)\<rparr>"

definition whisper_down_env :: env where
  "whisper_down_env = demo_env\<lparr>whisper := (\<lambda>w p. Inl ''CUDA out of memory'')\<rparr>"

definition librosa_down_env :: env where
  "librosa_down_env = demo_env\<lparr>librosa := (\<lambda>w p. Inl ''NoBackendError'')\<rparr>"

definition ticking_env :: env where
  "ticking_env =
     demo_env\<lparr>strftime_now :=
       (\<lambda>w. if length (calls w) < 4 then ''20240101_120000'' else ''20240101_120001'')\<rparr>"

definition demo_world :: world where
  "demo_world = \<lparr>files = [''/app/uploads/a.mp3'' \<mapsto> ''d41d''], media = [], calls = []\<rparr>"

definition empty_world :: world where
  "empty_world = \<lparr>files = Map.empty, media = [], calls = []\<rparr>"

text \<open>
  Two jobs enqueued before the worker runs: the first on an audio file that is not
  there and with the later timestamp, the second on the audio of \<open>demo_world\<close>.
\<close>

definition queued_events :: "event list" where
  "queued_events =
     [Enqueue 1 ''/app/uploads/missing.mp3'' ''/app/uploads/v.mp4'' 200,
      Enqueue 1 ''/app/uploads/a.mp3'' ''/app/uploads/v.mp4'' 100]"

definition demo_events :: "event list" where
  "demo_events =
     [Enqueue 1 ''/app/uploads/missing.mp3'' ''/app/uploads/v.mp4'' 200,
      Enqueue 1 ''/app/uploads/a.mp3'' ''/app/uploads/v.mp4'' 100,
      Work, Work]"

text \<open>
  Queues that hold the id of a row that has been deleted: alone, and followed by a job
  whose audio file is not there.
\<close>

definition lone_ghost_state :: system where
  "lone_ghost_state =
     lose_row 1 (run demo_env demo_world
       [Enqueue 1 ''/app/uploads/a.mp3'' ''/app/uploads/v.mp4'' 100])"

definition ghost_state :: system where
  "ghost_state =
     lose_row 1 (run demo_env demo_world
       [Enqueue 1 ''/app/uploads/a.mp3'' ''/app/uploads/v.mp4'' 100,
        Enqueue 1 ''/app/uploads/missing.mp3'' ''/app/uploads/v.mp4'' 200])"

section \<open>Facts about paths\<close>

lemma seg_cache_eq:
  "seg_cache E h = BASE_DIR E @ sep (BASE_DIR E) @ ''cache/segments_'' @ h @ ''.json''"
  by (simp add: seg_cache_def CACHE_DIR_def path_join_def sep_def)

lemma beats_cache_eq:
  "beats_cache E h = BASE_DIR E @ sep (BASE_DIR E) @ ''cache/beats_'' @ h @ ''.json''"
  by (simp add: beats_cache_def CACHE_DIR_def path_join_def sep_def)

lemma segments_json_eq:
  "segments_json E = BASE_DIR E @ sep (BASE_DIR E) @ ''segments.json''"
  by (simp add: segments_json_def path_join_def sep_def)

lemma beats_json_eq:
  "beats_json E = BASE_DIR E @ sep (BASE_DIR E) @ ''beats.json''"
  by (simp add: beats_json_def path_join_def sep_def)

lemmas path_eqs = seg_cache_eq beats_cache_eq segments_json_eq beats_json_eq

text \<open>The cache files and the workspace files never coincide.\<close>

lemma paths_distinct:
  "seg_cache E h \<noteq> segments_json E" "seg_cache E h \<noteq> beats_json E"
  "seg_cache E h \<noteq> beats_cache E h'" "beats_cache E h \<noteq> segments_json E"
  "beats_cache E h \<noteq> beats_json E" "segments_json E \<noteq> beats_json E"
  "segments_json E \<noteq> seg_cache E h" "beats_json E \<noteq> seg_cache E h"
  "beats_cache E h' \<noteq> seg_cache E h" "segments_json E \<noteq> beats_cache E h"
  "beats_json E \<noteq> beats_cache E h" "beats_json E \<noteq> segments_json E"
  by (simp_all add: path_eqs)

lemma seg_cache_inj: "seg_cache E h = seg_cache E h' \<longleftrightarrow> h = h'"
  by (simp add: path_eqs)

lemma beats_cache_inj: "beats_cache E h = beats_cache E h' \<longleftrightarrow> h = h'"
  by (simp add: path_eqs)

section \<open>Properties of the pipeline\<close>

lemmas pj_defs = process_job_def process_job_segments_def process_job_beats_def
  process_job_render_def hash_file_def transcribe_audio_def analyze_beats_def shutil_copy_def
  run_manim_def copy_from_media_def overlay_video_def new_calls_def

lemmas demo_defs = demo_env_def whisper_down_env_def librosa_down_env_def demo_world_def
  empty_world_def update_def path_eqs sep_def path_join_def manim_cmd_def
  effective_quality_def unique_id_def random_choices_def suffix_of_def basename_def
  ffmpeg_cmd_def SCENE_NAME_def MOTION_FILE_def ticking_env_def Let_def upt_conv_Cons

text \<open>
  C7. A job whose audio file cannot be read fails while the fingerprint is computed:
  \<open>process_job\<close> raises, and the world it leaves is the world it found, so no
  engine has been invoked (\<open>calls\<close> is unchanged) and no file, in particular no
  cache file of any fingerprint, has been created or changed.
\<close>

theorem unreadable_audio_fails_before_any_engine:
  assumes "files w apath = None"
  shows "(\<exists>e. fst (process_job E apath vpath output_dir cb quality d w) = Inl e)
       \<and> snd (snd (process_job E apath vpath output_dir cb quality d w)) = w"
  using assms by (simp add: process_job_def hash_file_def)

theorem unreadable_audio_witness:
  "files empty_world ''/app/uploads/a.mp3'' = None
   \<and> (\<exists>e. fst (process_job demo_env ''/app/uploads/a.mp3'' ''/app/uploads/v.mp4''
                ''/app/outputs'' None ''h'' () empty_world) = Inl e)
   \<and> snd (snd (process_job demo_env ''/app/uploads/a.mp3'' ''/app/uploads/v.mp4''
                ''/app/outputs'' None ''h'' () empty_world)) = empty_world"
proof -
  have h: "files empty_world ''/app/uploads/a.mp3'' = None"
    by (simp add: empty_world_def)
  show ?thesis
    using h unreadable_audio_fails_before_any_engine [OF h] by simp
qed

text \<open>
  C4. In both cached stages the cache file is written only after the engine has
  returned. If the transcription engine raises in a job, the job fails with that
  exception and no file has changed, so there is no transcript entry for the
  fingerprint; if the beat engine raises, the job fails with that exception, there is
  no beat entry for the fingerprint and no beat entry of any fingerprint has changed.
\<close>

theorem engine_failure_leaves_no_cache_entry:
  assumes "process_job E apath vpath output_dir cb quality d w = (r, d', w')"
    and "hash_file E apath w = Inr audio_hash"
  shows "(Transcribe apath (Inl m) \<in> set (new_calls w w') \<longrightarrow>
            r = Inl (Exception m) \<and> files w' = files w
            \<and> files w' (seg_cache E audio_hash) = None)
       \<and> (BeatTrack apath (Inl m) \<in> set (new_calls w w') \<longrightarrow>
            r = Inl (Exception m) \<and> files w' (beats_cache E audio_hash) = None
            \<and> (\<forall>h. files w' (beats_cache E h) = files w (beats_cache E h)))"
  using assms
  by (auto simp: pj_defs Let_def paths_distinct
           split: option.splits sum.splits if_splits prod.splits)

theorem engine_failure_witness:
  "hash_file whisper_down_env ''/app/uploads/a.mp3'' demo_world = Inr ''d41d''
   \<and> Transcribe ''/app/uploads/a.mp3'' (Inl ''CUDA out of memory'')
        \<in> set (new_calls demo_world (snd (snd (process_job whisper_down_env ''/app/uploads/a.mp3''
              ''/app/uploads/v.mp4'' ''/app/outputs'' None ''h'' () demo_world))))
   \<and> fst (process_job whisper_down_env ''/app/uploads/a.mp3''
              ''/app/uploads/v.mp4'' ''/app/outputs'' None ''h'' () demo_world)
        = Inl (Exception ''CUDA out of memory'')
   \<and> files (snd (snd (process_job whisper_down_env ''/app/uploads/a.mp3''
              ''/app/uploads/v.mp4'' ''/app/outputs'' None ''h'' () demo_world)))
        (seg_cache whisper_down_env ''d41d'') = None
   \<and> hash_file librosa_down_env ''/app/uploads/a.mp3'' demo_world = Inr ''d41d''
   \<and> BeatTrack ''/app/uploads/a.mp3'' (Inl ''NoBackendError'')
        \<in> set (new_calls demo_world (snd (snd (process_job librosa_down_env ''/app/uploads/a.mp3''
              ''/app/uploads/v.mp4'' ''/app/outputs'' None ''h'' () demo_world))))
   \<and> fst (process_job librosa_down_env ''/app/uploads/a.mp3''
              ''/app/uploads/v.mp4'' ''/app/outputs'' None ''h'' () demo_world)
        = Inl (Exception ''NoBackendError'')
   \<and> files (snd (snd (process_job librosa_down_env ''/app/uploads/a.mp3''
              ''/app/uploads/v.mp4'' ''/app/outputs'' None ''h'' () demo_world)))
        (beats_cache librosa_down_env ''d41d'') = None"
proof -
  let ?P = "process_job whisper_down_env ''/app/uploads/a.mp3''
              ''/app/uploads/v.mp4'' ''/app/outputs'' None ''h'' () demo_world"
  let ?Q = "process_job librosa_down_env ''/app/uploads/a.mp3''
              ''/app/uploads/v.mp4'' ''/app/outputs'' None ''h'' () demo_world"
  have p: "?P = (fst ?P, fst (snd ?P), snd (snd ?P))" by (simp add: prod_eq_iff)
  have q: "?Q = (fst ?Q, fst (snd ?Q), snd (snd ?Q))" by (simp add: prod_eq_iff)
  have hp: "hash_file whisper_down_env ''/app/uploads/a.mp3'' demo_world = Inr ''d41d''"
    by (simp add: hash_file_def demo_defs)
  have hq: "hash_file librosa_down_env ''/app/uploads/a.mp3'' demo_world = Inr ''d41d''"
    by (simp add: hash_file_def demo_defs)
  have cp: "Transcribe ''/app/uploads/a.mp3'' (Inl ''CUDA out of memory'')
        \<in> set (new_calls demo_world (snd (snd ?P)))"
    by (simp add: pj_defs demo_defs)
  have cq: "BeatTrack ''/app/uploads/a.mp3'' (Inl ''NoBackendError'')
        \<in> set (new_calls demo_world (snd (snd ?Q)))"
    by (simp add: pj_defs demo_defs)
  show ?thesis
    using hp hq cp cq
      engine_failure_leaves_no_cache_entry [OF p hp, of "''CUDA out of memory''"]
      engine_failure_leaves_no_cache_entry [OF q hq, of "''NoBackendError''"]
    by blast
qed



subsection \<open>Engine invocations of two jobs on the same audio\<close>

lemma calls_extend:
  assumes "process_job E apath vpath output_dir cb quality d w = (r, d', w')"
  shows "calls w' = calls w @ new_calls w w'"
  using assms
  by (auto simp: pj_defs Let_def split: option.splits sum.splits if_splits prod.splits)

lemma new_calls_trans:
  assumes "calls w1 = calls w @ new_calls w w1" and "calls w2 = calls w1 @ new_calls w1 w2"
  shows "new_calls w w2 = new_calls w w1 @ new_calls w1 w2"
proof -
  have "calls w2 = calls w @ (new_calls w w1 @ new_calls w1 w2)"
    using assms by simp
  then show ?thesis
    by (simp add: new_calls_def[of w w2])
qed

lemma first_job:
  assumes "process_job E apath vpath output_dir cb quality d w = (r, d', w')"
    and "files w apath = Some data"
    and "files w (seg_cache E (md5_hexdigest E data)) = None"
    and "files w (beats_cache E (md5_hexdigest E data)) = None"
    and "\<forall>c \<in> set (new_calls w w'). \<not> engine_failed c"
  shows "transcribe_calls (new_calls w w') = 1 \<and> beat_calls (new_calls w w') = 1
       \<and> files w' (seg_cache E (md5_hexdigest E data)) \<noteq> None
       \<and> files w' (beats_cache E (md5_hexdigest E data)) \<noteq> None"
  using assms
  by (auto simp: pj_defs Let_def paths_distinct transcribe_calls_def beat_calls_def
           split: option.splits sum.splits if_splits prod.splits)

lemma cached_job:
  assumes "process_job E apath vpath output_dir cb quality d w = (r, d', w')"
    and "files w apath = Some data"
    and "files w (seg_cache E (md5_hexdigest E data)) \<noteq> None"
    and "files w (beats_cache E (md5_hexdigest E data)) \<noteq> None"
  shows "transcribe_calls (new_calls w w') = 0 \<and> beat_calls (new_calls w w') = 0"
  using assms
  by (auto simp: pj_defs Let_def paths_distinct transcribe_calls_def beat_calls_def
           split: option.splits sum.splits if_splits prod.splits)

text \<open>
  C1, as the claim states it, fails: when the transcription engine raises in the first
  job, nothing is cached, and a second job on the same bytes invokes the engine again.
  Here the engine is down: two jobs on one audio file, two invocations.
\<close>

theorem identical_audio_counterexample:
  "transcribe_calls (new_calls demo_world
      (snd (snd (process_job whisper_down_env ''/app/uploads/a.mp3'' ''/app/uploads/v.mp4''
         ''/app/outputs'' None ''h'' ()
         (snd (snd (process_job whisper_down_env ''/app/uploads/a.mp3'' ''/app/uploads/v.mp4''
            ''/app/outputs'' None ''h'' () demo_world))))))) = 2"
  by (simp add: pj_defs demo_defs Let_def transcribe_calls_def)

text \<open>
  C1, amended. Two jobs run one after the other on byte-identical audio. If the cache
  holds no entry for the fingerprint in either namespace before the first job, and
  neither the transcription nor the beat engine raises in the first job, then across
  both jobs each of the two engines is invoked exactly once, and the second job
  invokes neither: it finds both entries that the first job stored.
\<close>

theorem identical_audio_engines_invoked_once:
  assumes j1: "process_job E a1 v1 o1 cb1 q1 d1 w = (r1, d1', w1)"
    and j2: "process_job E a2 v2 o2 cb2 q2 d2 w1 = (r2, d2', w2)"
    and a1: "files w a1 = Some data" and a2: "files w1 a2 = Some data"
    and miss: "files w (seg_cache E (md5_hexdigest E data)) = None"
              "files w (beats_cache E (md5_hexdigest E data)) = None"
    and ok: "\<forall>c \<in> set (new_calls w w1). \<not> engine_failed c"
  shows "transcribe_calls (new_calls w w2) = 1 \<and> beat_calls (new_calls w w2) = 1
       \<and> transcribe_calls (new_calls w1 w2) = 0 \<and> beat_calls (new_calls w1 w2) = 0"
proof -
  have f: "transcribe_calls (new_calls w w1) = 1 \<and> beat_calls (new_calls w w1) = 1
       \<and> files w1 (seg_cache E (md5_hexdigest E data)) \<noteq> None
       \<and> files w1 (beats_cache E (md5_hexdigest E data)) \<noteq> None"
    by (rule first_job [OF j1 a1 miss ok])
  have s: "transcribe_calls (new_calls w1 w2) = 0 \<and> beat_calls (new_calls w1 w2) = 0"
    using f by (intro cached_job [OF j2 a2]) simp_all
  have "new_calls w w2 = new_calls w w1 @ new_calls w1 w2"
    by (rule new_calls_trans [OF calls_extend [OF j1] calls_extend [OF j2]])
  then show ?thesis
    using f s by (simp add: transcribe_calls_def beat_calls_def)
qed

theorem identical_audio_witness:
  "files demo_world ''/app/uploads/a.mp3'' = Some ''d41d''
   \<and> files demo_world (seg_cache demo_env (md5_hexdigest demo_env ''d41d'')) = None
   \<and> files demo_world (beats_cache demo_env (md5_hexdigest demo_env ''d41d'')) = None
   \<and> files (snd (snd (process_job demo_env ''/app/uploads/a.mp3'' ''/app/uploads/v.mp4''
         ''/app/outputs'' None ''h'' () demo_world))) ''/app/uploads/a.mp3'' = Some ''d41d''
   \<and> filter engine_failed (new_calls demo_world
          (snd (snd (process_job demo_env ''/app/uploads/a.mp3'' ''/app/uploads/v.mp4''
             ''/app/outputs'' None ''h'' () demo_world)))) = []
   \<and> transcribe_calls (new_calls demo_world
        (snd (snd (process_job demo_env ''/app/uploads/a.mp3'' ''/app/uploads/v.mp4''
           ''/app/outputs'' None ''h'' ()
           (snd (snd (process_job demo_env ''/app/uploads/a.mp3'' ''/app/uploads/v.mp4''
              ''/app/outputs'' None ''h'' () demo_world))))))) = 1
   \<and> beat_calls (new_calls demo_world
        (snd (snd (process_job demo_env ''/app/uploads/a.mp3'' ''/app/uploads/v.mp4''
           ''/app/outputs'' None ''h'' ()
           (snd (snd (process_job demo_env ''/app/uploads/a.mp3'' ''/app/uploads/v.mp4''
              ''/app/outputs'' None ''h'' () demo_world))))))) = 1"
proof -
  let ?J1 = "process_job demo_env ''/app/uploads/a.mp3'' ''/app/uploads/v.mp4''
         ''/app/outputs'' None ''h'' () demo_world"
  let ?J2 = "process_job demo_env ''/app/uploads/a.mp3'' ''/app/uploads/v.mp4''
         ''/app/outputs'' None ''h'' () (snd (snd ?J1))"
  have j1: "?J1 = (fst ?J1, fst (snd ?J1), snd (snd ?J1))" by (simp add: prod_eq_iff)
  have j2: "?J2 = (fst ?J2, fst (snd ?J2), snd (snd ?J2))" by (simp add: prod_eq_iff)
  have a1: "files demo_world ''/app/uploads/a.mp3'' = Some ''d41d''"
    by (simp add: demo_defs)
  have a2: "files (snd (snd ?J1)) ''/app/uploads/a.mp3'' = Some ''d41d''"
    by (simp add: pj_defs demo_defs Let_def upt_conv_Cons)
  have m1: "files demo_world (seg_cache demo_env (md5_hexdigest demo_env ''d41d'')) = None"
    by (simp add: demo_defs)
  have m2: "files demo_world (beats_cache demo_env (md5_hexdigest demo_env ''d41d'')) = None"
    by (simp add: demo_defs)
  have okf: "filter engine_failed (new_calls demo_world (snd (snd ?J1))) = []"
    by (simp add: pj_defs demo_defs)
  have ok: "\<forall>c \<in> set (new_calls demo_world (snd (snd ?J1))). \<not> engine_failed c"
    using okf by (simp add: filter_empty_conv)
  show ?thesis
    using a1 a2 m1 m2 okf identical_audio_engines_invoked_once [OF j1 j2 a1 a2 m1 m2 ok]
    by blast
qed

subsection \<open>The output path\<close>








subsection \<open>What the renderer reads\<close>

text \<open>
  C9. Whenever the renderer is invoked in a job, both workspace files exist and hold
  the artifacts of this job's fingerprint: the transcript is the cache entry that was
  there when the job started (cache hit) or the result of this job's transcription
  (cache miss), and likewise for the beats. What an earlier job left in the workspace
  has been overwritten. (The scene opens the two files relative to the working
  directory, which the pipeline takes to be the directory of the source files.)
\<close>

theorem renderer_reads_current_artifacts:
  assumes "process_job E apath vpath output_dir cb quality d w = (r, d', w')"
    and "hash_file E apath w = Inr audio_hash"
    and "Manim cmd s b \<in> set (new_calls w w')"
  shows "\<exists>segs beats. s = Some segs \<and> b = Some beats
      \<and> (files w (seg_cache E audio_hash) = Some segs
           \<or> files w (seg_cache E audio_hash) = None
              \<and> Transcribe apath (Inr segs) \<in> set (new_calls w w'))
      \<and> (files w (beats_cache E audio_hash) = Some beats
           \<or> files w (beats_cache E audio_hash) = None
              \<and> BeatTrack apath (Inr beats) \<in> set (new_calls w w'))"
  using assms
  by (auto simp: pj_defs Let_def paths_distinct
           split: option.splits sum.splits if_splits prod.splits)

theorem renderer_reads_witness:
  "hash_file demo_env ''/app/uploads/a.mp3'' demo_world = Inr ''d41d''
   \<and> Manim (manim_cmd ''h'') (Some ''[segments]'') (Some ''[beats]'')
        \<in> set (new_calls demo_world
             (snd (snd (process_job demo_env ''/app/uploads/a.mp3'' ''/app/uploads/v.mp4''
                ''/app/outputs'' None ''h'' () demo_world))))
   \<and> files demo_world (seg_cache demo_env ''d41d'') = None
   \<and> Transcribe ''/app/uploads/a.mp3'' (Inr ''[segments]'')
        \<in> set (new_calls demo_world
             (snd (snd (process_job demo_env ''/app/uploads/a.mp3'' ''/app/uploads/v.mp4''
                ''/app/outputs'' None ''h'' () demo_world))))"
proof -
  let ?J1 = "process_job demo_env ''/app/uploads/a.mp3'' ''/app/uploads/v.mp4''
         ''/app/outputs'' None ''h'' () demo_world"
  have j1: "?J1 = (fst ?J1, fst (snd ?J1), snd (snd ?J1))" by (simp add: prod_eq_iff)
  have h: "hash_file demo_env ''/app/uploads/a.mp3'' demo_world = Inr ''d41d''"
    by (simp add: hash_file_def demo_defs)
  have c: "Manim (manim_cmd ''h'') (Some ''[segments]'') (Some ''[beats]'')
        \<in> set (new_calls demo_world (snd (snd ?J1)))"
    by (simp add: pj_defs demo_defs Let_def upt_conv_Cons)
  have m: "files demo_world (seg_cache demo_env ''d41d'') = None"
    by (simp add: demo_defs)
  show ?thesis
    using h c m renderer_reads_current_artifacts [OF j1 h c] by auto
qed

section \<open>Properties of the worker\<close>

subsection \<open>What the pipeline reports\<close>

lemma reports_effect:
  assumes "jobs d i = Some j"
  shows "next_id (reports i d ups) = next_id d
       \<and> medias (reports i d ups) = medias d
       \<and> (\<forall>k. k \<noteq> i \<longrightarrow> jobs (reports i d ups) k = jobs d k)
       \<and> history (reports i d ups)
           = history d @ map (\<lambda>(p, m). (i, status j, max 0 (min 100 p))) ups"
  using assms
proof (induction ups arbitrary: d j)
  case Nil
  then show ?case by (simp add: reports_def)
next
  case (Cons u ups)
  obtain p m where u: "u = (p, m)" by (cases u)
  let ?j = "j\<lparr>progress := max 0 (min 100 p), message := m\<rparr>"
  let ?d = "progress_callback i p m d"
  have d: "?d = commit_job i ?j d"
    using Cons.prems by (simp add: progress_callback_def)
  have j: "jobs ?d i = Some ?j"
    by (simp add: d commit_job_def)
  have r: "reports i d (u # ups) = reports i ?d ups"
    by (simp add: reports_def u)
  show ?case
    using Cons.IH [OF j] by (simp add: r) (simp add: d commit_job_def u)
qed

lemma segments_reports:
  assumes "process_job_segments E (Some cb) a h d w = (r, d', w')"
  shows "\<exists>m. d' = cb 15 m d"
  using assms
  by (auto simp: process_job_segments_def update_def Let_def split: if_splits prod.splits sum.splits)

lemma beats_reports:
  assumes "process_job_beats E (Some cb) a h d w = (r, d', w')"
  shows "\<exists>m. d' = cb 35 m d"
  using assms
  by (auto simp: process_job_beats_def update_def Let_def split: if_splits prod.splits sum.splits)

lemma render_reports:
  assumes "process_job_render E (Some cb) a v o' q d w = (r, d', w')"
  shows "(\<exists>out. r = Inr out) \<and> d' = cb 100 MsgFinished (cb 80 MsgCompositing (cb 55 MsgRendering d))
       \<or> (\<exists>e. r = Inl e) \<and> (d' = cb 55 MsgRendering d \<or> d' = cb 80 MsgCompositing (cb 55 MsgRendering d))"
  using assms
  by (auto simp: process_job_render_def update_def Let_def split: if_splits prod.splits sum.splits)

lemma process_job_reports:
  assumes "process_job E a v o' (Some cb) q d w = (r, d', w')"
  shows "\<exists>ups. d' = foldl (\<lambda>d (p, m). cb p m d) d ups
       \<and> prefix (map fst ups) [5, 15, 35, 55, 80, 100] \<and> ups \<noteq> []
       \<and> ((\<exists>out. r = Inr out) \<longrightarrow> map fst ups = [5, 15, 35, 55, 80, 100])"
proof (cases "hash_file E a w")
  case (Inl e)
  then have "d' = foldl (\<lambda>d (p, m). cb p m d) d [(5, MsgHashing)]" and "r = Inl e"
    using assms by (simp_all add: process_job_def update_def)
  then show ?thesis by (intro exI [of _ "[(5, MsgHashing)]"]) simp
next
  case (Inr h)
  let ?d1 = "cb 5 MsgHashing d"
  obtain r1 d2 w1 where s: "process_job_segments E (Some cb) a h ?d1 w = (r1, d2, w1)"
    by (cases "process_job_segments E (Some cb) a h ?d1 w") auto
  obtain m15 where d2: "d2 = cb 15 m15 ?d1"
    using segments_reports [OF s] by blast
  show ?thesis
  proof (cases r1)
    case (Inl e)
    then have "d' = d2" "r = Inl e"
      using assms Inr s by (simp_all add: process_job_def update_def)
    then show ?thesis
      by (intro exI [of _ "[(5, MsgHashing), (15, m15)]"]) (simp add: d2)
  next
    case r1: (Inr u1)
    obtain r2 d3 w2 where b: "process_job_beats E (Some cb) a h d2 w1 = (r2, d3, w2)"
      by (cases "process_job_beats E (Some cb) a h d2 w1") auto
    obtain m35 where d3: "d3 = cb 35 m35 d2"
      using beats_reports [OF b] by blast
    show ?thesis
    proof (cases r2)
      case (Inl e)
      then have "d' = d3" "r = Inl e"
        using assms Inr s r1 b by (simp_all add: process_job_def update_def)
      then show ?thesis
        by (intro exI [of _ "[(5, MsgHashing), (15, m15), (35, m35)]"]) (simp add: d2 d3)
    next
      case r2: (Inr u2)
      have rr: "process_job_render E (Some cb) a v o' q d3 w2 = (r, d', w')"
        using assms Inr s r1 b r2 by (simp add: process_job_def update_def)
      from render_reports [OF rr] show ?thesis
      proof (elim disjE conjE exE)
        fix out assume "r = Inr out"
          and "d' = cb 100 MsgFinished (cb 80 MsgCompositing (cb 55 MsgRendering d3))"
        then show ?thesis
          by (intro exI [of _ "[(5, MsgHashing), (15, m15), (35, m35), (55, MsgRendering),
                (80, MsgCompositing), (100, MsgFinished)]"]) (simp add: d2 d3)
      next
        fix e assume "r = Inl e" and "d' = cb 55 MsgRendering d3"
        then show ?thesis
          by (intro exI [of _ "[(5, MsgHashing), (15, m15), (35, m35), (55, MsgRendering)]"])
             (simp add: d2 d3)
      next
        fix e assume "r = Inl e" and "d' = cb 80 MsgCompositing (cb 55 MsgRendering d3)"
        then show ?thesis
          by (intro exI [of _ "[(5, MsgHashing), (15, m15), (35, m35), (55, MsgRendering),
                (80, MsgCompositing)]"]) (simp add: d2 d3)
      qed
    qed
  qed
qed

lemma milestones_clamped:
  assumes "prefix (map fst ups) [5, 15, 35, 55, 80, 100::int]"
  shows "map (\<lambda>(p, m). (i, s, max 0 (min 100 p))) ups = map (\<lambda>p. (i, s, p)) (map fst ups)"
proof -
  have "set (map fst ups) \<subseteq> set [5, 15, 35, 55, 80, 100::int]"
    using assms by (rule set_mono_prefix)
  then have "\<forall>u \<in> set ups. max 0 (min 100 (fst u)) = fst u"
    by auto
  then show ?thesis
    by (auto simp: case_prod_beta)
qed

subsection \<open>One pass of the worker on a job\<close>

lemma worker_iteration_job:
  assumes alive: "worker_alive s" and q: "JOB_QUEUE s = i # rest"
    and j: "jobs (db s) i = Some j" and u: "unfinished_tasks s \<noteq> 0"
  shows "\<exists>ps j2.
      JOB_QUEUE (worker_iteration E s) = rest
    \<and> worker_alive (worker_iteration E s)
    \<and> unfinished_tasks (worker_iteration E s) = unfinished_tasks s - 1
    \<and> next_id (db (worker_iteration E s)) = next_id (db s)
    \<and> jobs (db (worker_iteration E s)) = (jobs (db s))(i \<mapsto> j2)
    \<and> history (db (worker_iteration E s))
        = history (db s) @ (i, Running, 5) # map (\<lambda>p. (i, Running, p)) ps
            @ [(i, status j2, progress j2)]
    \<and> prefix ps [5, 15, 35, 55, 80, 100] \<and> ps \<noteq> []
    \<and> (case head_job_result E s of
          Some (Inr out) \<Rightarrow>
            j2 = j\<lparr>status := Done, progress := 100, message := MsgFinished,
                   output_path := Some out\<rparr>
        | Some (Inl e) \<Rightarrow>
            j2 = j\<lparr>status := Error, progress := 0, message := MsgJobError,
                   error := Some (str e)\<rparr>
        | None \<Rightarrow> False)"
proof -
  let ?j1 = "j\<lparr>status := Running, progress := 5, message := MsgStarting\<rparr>"
  let ?d1 = "commit_job i ?j1 (db s)"
  obtain r d2 w where rp: "run_pipeline E i ?j1 ?d1 (fs s) = (r, d2, w)"
    by (cases "run_pipeline E i ?j1 ?d1 (fs s)") auto
  have hr: "head_job_result E s = Some r"
    using q j rp by (simp add: head_job_result_def)
  obtain ups where d2: "d2 = reports i ?d1 ups"
    and pre: "prefix (map fst ups) [5, 15, 35, 55, 80, 100]" and ne: "ups \<noteq> []"
    using process_job_reports [OF rp [unfolded run_pipeline_def]]
    unfolding reports_def by blast
  have j1: "jobs ?d1 i = Some ?j1"
    by (simp add: commit_job_def)
  from reports_effect [OF j1, of ups]
  have nx: "next_id d2 = next_id (db s)"
    and oth: "\<forall>k. k \<noteq> i \<longrightarrow> jobs d2 k = jobs (db s) k"
    and hist: "history d2 = history (db s) @ (i, Running, 5)
                 # map (\<lambda>p. (i, Running, p)) (map fst ups)"
    by (simp_all add: d2 commit_job_def milestones_clamped [OF pre])
  have upd: "\<And>j2. (jobs d2)(i \<mapsto> j2) = (jobs (db s))(i \<mapsto> j2)"
    using oth by (intro ext) simp
  show ?thesis
  proof (cases r)
    case (Inl e)
    let ?j2 = "j\<lparr>status := Error, progress := 0, message := MsgJobError, error := Some (str e)\<rparr>"
    have w: "worker_iteration E s
       = (s\<lparr>JOB_QUEUE := rest, db := commit_job i ?j2 d2, fs := w,
            unfinished_tasks := unfinished_tasks s - 1\<rparr>)"
      using alive q j rp Inl u
      by (simp add: worker_iteration_def finally_block_def task_done_def)
    show ?thesis
      by (intro exI [of _ "map fst ups"] exI [of _ ?j2])
         (simp add: w hr Inl alive commit_job_def nx upd hist pre ne)
  next
    case (Inr out)
    let ?j2 = "j\<lparr>status := Done, progress := 100, message := MsgFinished, output_path := Some out\<rparr>"
    let ?m = "\<lparr>media_project_id = project_id j, media_job_id = Some i,
               file_path = out, media_type = ''video''\<rparr>"
    have w: "worker_iteration E s
       = (s\<lparr>JOB_QUEUE := rest, db := commit_job i ?j2 (d2\<lparr>medias := medias d2 @ [?m]\<rparr>), fs := w,
            unfinished_tasks := unfinished_tasks s - 1\<rparr>)"
      using alive q j rp Inr u
      by (simp add: worker_iteration_def finally_block_def task_done_def)
    show ?thesis
      by (intro exI [of _ "map fst ups"] exI [of _ ?j2])
         (simp add: w hr Inr alive commit_job_def nx upd hist pre ne)
  qed
qed

subsection \<open>The invariant\<close>

lemma job_trace_append: "job_trace i (h @ h') = job_trace i h @ job_trace i h'"
  by (simp add: job_trace_def)

lemma job_trace_Nil: "job_trace k [] = []"
  by (simp add: job_trace_def)

lemma job_trace_Cons:
  "job_trace k ((i, e) # h) = (if k = i then e # job_trace k h else job_trace k h)"
  by (simp add: job_trace_def)

lemma created_append: "created (h @ h') = created h @ created h'"
  by (simp add: created_def)

lemma finished_append: "finished (h @ h') = finished h @ finished h'"
  by (simp add: finished_def)

lemma cursor_append:
  "cursor c (h @ h') = (case cursor c h of None \<Rightarrow> None | Some c' \<Rightarrow> cursor c' h')"
  by (induction c h rule: cursor.induct) (auto split: status.splits)

lemma cursor_running: "cursor (Some i) (map (\<lambda>p. (i, Running, p)) ps) = Some (Some i)"
  by (induction ps) auto

lemma job_trace_running:
  "job_trace k (map (\<lambda>p. (i, Running, p)) ps) = (if k = i then map (\<lambda>p. (Running, p)) ps else [])"
  by (induction ps) (auto simp: job_trace_def)

lemma created_running: "created (map (\<lambda>p. (i, Running, p)) ps) = []"
  by (induction ps) (auto simp: created_def)

lemma finished_running: "finished (map (\<lambda>p. (i, Running, p)) ps) = []"
  by (induction ps) (auto simp: finished_def terminal_def)

lemma block_ok:
  assumes "prefix ps [5, 15, 35, 55, 80, 100::int]"
    and "t = Done \<and> x = 100 \<or> t = Error \<and> x = 0"
  shows "progress_ok 0 ((Queued, 0) # (Running, 5) # map (\<lambda>p. (Running, p)) ps @ [(t, x)])"
proof -
  have "ps \<in> set (prefixes [5, 15, 35, 55, 80, 100::int])"
    using assms(1) by (simp only: in_set_prefixes)
  then show ?thesis
    using assms(2) by auto
qed

lemma inv_init: "inv (init_system w)"
  by (simp add: inv_def init_system_def trace_ok_def job_trace_def created_def finished_def)

lemma trace_ok_same:
  assumes "jobs d' k = jobs d k" and "job_trace k (history d') = job_trace k (history d)"
  shows "trace_ok d' k = trace_ok d k"
  using assms by (auto simp: trace_ok_def split: option.splits)

lemma inv_enqueue:
  assumes "inv s"
  shows "inv (snd (enqueue_job pid apath vpath now s))"
proof -
  let ?i = "next_id (db s)"
  let ?s' = "snd (enqueue_job pid apath vpath now s)"
  let ?j = "\<lparr>project_id = pid, audio_path = apath, video_path = vpath,
            output_path = None, status = Queued, progress = 0,
            message = MsgQueued, error = None, created_at = now\<rparr>"
  have alive: "worker_alive s" and unf: "unfinished_tasks s = length (JOB_QUEUE s)"
    and dist: "distinct (JOB_QUEUE s)"
    and qd: "\<forall>i \<in> set (JOB_QUEUE s). \<exists>j. jobs (db s) i = Some j \<and> status j = Queued"
    and js: "\<forall>i j. jobs (db s) i = Some j \<longrightarrow>
               i < next_id (db s) \<and> job_consistent j \<and> status j \<noteq> Running"
    and tr: "\<forall>i. trace_ok (db s) i"
    and cur: "cursor None (history (db s)) = Some None"
    and fifo: "created (history (db s)) = finished (history (db s)) @ JOB_QUEUE s"
    using assms by (simp_all add: inv_def)
  have jobs': "jobs (db ?s') = (jobs (db s))(?i \<mapsto> ?j)"
    and hist': "history (db ?s') = history (db s) @ [(?i, Queued, 0)]"
    and nxt': "next_id (db ?s') = Suc ?i"
    and queue': "JOB_QUEUE ?s' = JOB_QUEUE s @ [?i]"
    and unf': "unfinished_tasks ?s' = Suc (unfinished_tasks s)"
    and alive': "worker_alive ?s' = worker_alive s"
    by (simp_all add: enqueue_job_def Let_def commit_job_def)
  have fresh: "jobs (db s) ?i = None"
    using js by (cases "jobs (db s) ?i") auto
  have notq: "?i \<notin> set (JOB_QUEUE s)"
    using qd fresh by auto
  have tri: "job_trace ?i (history (db s)) = []"
    using tr [rule_format, of ?i] fresh by (simp add: trace_ok_def)
  have 1: "\<forall>i \<in> set (JOB_QUEUE ?s'). \<exists>j. jobs (db ?s') i = Some j \<and> status j = Queued"
    using qd notq by (auto simp: jobs' queue')
  have 2: "\<forall>i j. jobs (db ?s') i = Some j \<longrightarrow>
               i < next_id (db ?s') \<and> job_consistent j \<and> status j \<noteq> Running"
    using js by (auto simp: jobs' nxt' job_consistent_def less_Suc_eq)
  have 3: "trace_ok (db ?s') k" for k
  proof (cases "k = ?i")
    case True
    then show ?thesis
      using tri by (simp add: trace_ok_def jobs' hist' job_trace_append) (simp add: job_trace_def)
  next
    case False
    then have "trace_ok (db ?s') k = trace_ok (db s) k"
      by (intro trace_ok_same) (simp_all add: jobs' hist' job_trace_append job_trace_def)
    then show ?thesis using tr by simp
  qed
  have 3: "\<forall>k. trace_ok (db ?s') k"
    using 3 by blast
  have 4: "cursor None (history (db ?s')) = Some None"
    by (simp add: hist' cursor_append cur)
  have 5: "created (history (db ?s')) = finished (history (db ?s')) @ JOB_QUEUE ?s'"
    using fifo by (simp add: hist' queue' created_append finished_append)
                  (simp add: created_def finished_def terminal_def)
  show ?thesis
    unfolding inv_def
    using alive unf dist notq 1 2 3 4 5 by (simp add: alive' unf' queue')
qed

lemma inv_work:
  assumes "inv s"
  shows "inv (worker_iteration E s)"
proof (cases "JOB_QUEUE s")
  case Nil
  then show ?thesis using assms by (simp add: worker_iteration_def)
next
  case (Cons i rest)
  let ?s' = "worker_iteration E s"
  have alive: "worker_alive s" and unf: "unfinished_tasks s = length (JOB_QUEUE s)"
    and dist: "distinct (JOB_QUEUE s)"
    and qd: "\<forall>i \<in> set (JOB_QUEUE s). \<exists>j. jobs (db s) i = Some j \<and> status j = Queued"
    and js: "\<forall>i j. jobs (db s) i = Some j \<longrightarrow>
               i < next_id (db s) \<and> job_consistent j \<and> status j \<noteq> Running"
    and tr: "\<forall>i. trace_ok (db s) i"
    and cur: "cursor None (history (db s)) = Some None"
    and fifo: "created (history (db s)) = finished (history (db s)) @ JOB_QUEUE s"
    using assms by (simp_all add: inv_def)
  obtain j where j: "jobs (db s) i = Some j" and jq: "status j = Queued"
    using qd Cons by auto
  have jc: "job_consistent j"
    using js j by blast
  have u: "unfinished_tasks s \<noteq> 0"
    using unf Cons by simp
  obtain ps j2 where queue': "JOB_QUEUE ?s' = rest"
    and alive': "worker_alive ?s'"
    and unf': "unfinished_tasks ?s' = unfinished_tasks s - 1"
    and nxt': "next_id (db ?s') = next_id (db s)"
    and jobs': "jobs (db ?s') = (jobs (db s))(i \<mapsto> j2)"
    and hist': "history (db ?s') = history (db s) @ (i, Running, 5)
                   # map (\<lambda>p. (i, Running, p)) ps @ [(i, status j2, progress j2)]"
    and pre: "prefix ps [5, 15, 35, 55, 80, 100]"
    and res: "case head_job_result E s of
          Some (Inr out) \<Rightarrow>
            j2 = j\<lparr>status := Done, progress := 100, message := MsgFinished,
                   output_path := Some out\<rparr>
        | Some (Inl e) \<Rightarrow>
            j2 = j\<lparr>status := Error, progress := 0, message := MsgJobError,
                   error := Some (str e)\<rparr>
        | None \<Rightarrow> False"
    using worker_iteration_job [OF alive Cons j u, of E] by blast
  have j2: "status j2 = Done \<and> progress j2 = 100 \<or> status j2 = Error \<and> progress j2 = 0"
    and j2c: "job_consistent j2"
    using res jc jq by (auto simp: job_consistent_def split: option.splits sum.splits)
  have tmn: "terminal (status j2)"
    using j2 by (auto simp: terminal_def)
  have inotrest: "i \<notin> set rest"
    using dist Cons by simp
  have 1: "\<forall>k \<in> set (JOB_QUEUE ?s'). \<exists>j. jobs (db ?s') k = Some j \<and> status j = Queued"
    using qd inotrest Cons by (auto simp: jobs' queue')
  have 2: "\<forall>k j. jobs (db ?s') k = Some j \<longrightarrow>
               k < next_id (db ?s') \<and> job_consistent j \<and> status j \<noteq> Running"
    using js j j2 j2c by (auto simp: jobs' nxt')
  have tri: "job_trace i (history (db s)) = [(Queued, 0)]"
    using tr [rule_format, of i] j jq by (simp add: trace_ok_def)
  have 3: "trace_ok (db ?s') k" for k
  proof (cases "k = i")
    case True
    have "progress_ok 0 ((Queued, 0) # (Running, 5) # map (\<lambda>p. (Running, p)) ps
            @ [(status j2, progress j2)])"
      using pre j2 by (intro block_ok) auto
    then show ?thesis
      using True j2 tri
      by (auto simp: trace_ok_def jobs' hist' job_trace_append job_trace_running
                     job_trace_Cons job_trace_Nil)
  next
    case False
    then have "trace_ok (db ?s') k = trace_ok (db s) k"
      by (intro trace_ok_same)
         (simp_all add: jobs' hist' job_trace_append job_trace_running job_trace_Cons job_trace_Nil)
    then show ?thesis using tr by simp
  qed
  have 3: "\<forall>k. trace_ok (db ?s') k"
    using 3 by blast
  have 4: "cursor None (history (db ?s')) = Some None"
    using j2 by (auto simp: hist' cursor_append cur cursor_running)
  have 5: "created (history (db ?s')) = finished (history (db ?s')) @ JOB_QUEUE ?s'"
    using fifo tmn j2 Cons
    by (simp add: hist' queue' created_append finished_append created_running finished_running)
       (auto simp: created_def finished_def terminal_def)
  show ?thesis
    unfolding inv_def
    using alive' unf dist Cons 1 2 3 4 5 by (simp add: unf' queue')
qed

lemma run_snoc: "run E w (evs @ [ev]) = step E (run E w evs) ev"
  by (simp add: run_def)

lemma inv_run: "inv (run E w evs)"
proof (induction evs rule: rev_induct)
  case Nil
  then show ?case by (simp add: run_def inv_init)
next
  case (snoc ev evs)
  then show ?case
    by (cases ev) (simp_all add: run_snoc inv_enqueue inv_work)
qed

subsection \<open>The loop\<close>

lemma work_head:
  assumes "inv s" and q: "JOB_QUEUE s = i # rest"
  shows "\<exists>j j2. jobs (db s) i = Some j
      \<and> JOB_QUEUE (worker_iteration E s) = rest
      \<and> worker_alive (worker_iteration E s)
      \<and> jobs (db (worker_iteration E s)) = (jobs (db s))(i \<mapsto> j2)
      \<and> terminal (status j2)
      \<and> head_job_result E s \<noteq> None
      \<and> (\<forall>e. head_job_result E s = Some (Inl e) \<longrightarrow>
            j2 = j\<lparr>status := Error, progress := 0, message := MsgJobError,
                   error := Some (str e)\<rparr>)"
proof -
  have alive: "worker_alive s" and unf: "unfinished_tasks s = length (JOB_QUEUE s)"
    and qd: "\<forall>i \<in> set (JOB_QUEUE s). \<exists>j. jobs (db s) i = Some j \<and> status j = Queued"
    using assms(1) by (simp_all add: inv_def)
  obtain j where j: "jobs (db s) i = Some j"
    using qd q by auto
  have u: "unfinished_tasks s \<noteq> 0"
    using unf q by simp
  obtain ps j2 where a: "JOB_QUEUE (worker_iteration E s) = rest"
    and b: "worker_alive (worker_iteration E s)"
    and c: "jobs (db (worker_iteration E s)) = (jobs (db s))(i \<mapsto> j2)"
    and res: "case head_job_result E s of
          Some (Inr out) \<Rightarrow>
            j2 = j\<lparr>status := Done, progress := 100, message := MsgFinished,
                   output_path := Some out\<rparr>
        | Some (Inl e) \<Rightarrow>
            j2 = j\<lparr>status := Error, progress := 0, message := MsgJobError,
                   error := Some (str e)\<rparr>
        | None \<Rightarrow> False"
    using worker_iteration_job [OF alive q j u, of E] by blast
  have d: "terminal (status j2)" and e: "head_job_result E s \<noteq> None"
    and f: "\<forall>e. head_job_result E s = Some (Inl e) \<longrightarrow>
            j2 = j\<lparr>status := Error, progress := 0, message := MsgJobError,
                   error := Some (str e)\<rparr>"
    using res by (auto simp: terminal_def split: option.splits sum.splits)
  show ?thesis
    using j a b c d e f by blast
qed

lemma worker_loop_inv:
  assumes "inv s"
  shows "inv (worker_loop E s) \<and> JOB_QUEUE (worker_loop E s) = []"
  using assms
proof (induction E s rule: worker_loop.induct)
  case (1 E s)
  show ?case
  proof (cases "worker_alive s \<and> JOB_QUEUE s \<noteq> []")
    case True
    then have "worker_loop E s = worker_loop E (worker_iteration E s)"
      using worker_loop.simps [of E s] by auto
    then show ?thesis
      using "1.IH" [OF True inv_work [OF "1.prems"]] by simp
  next
    case False
    then have "worker_loop E s = s"
      using worker_loop.simps [of E s] by auto
    moreover have "worker_alive s"
      using "1.prems" by (simp add: inv_def)
    ultimately show ?thesis
      using False "1.prems" by simp
  qed
qed

lemma worker_loop_keeps:
  assumes "inv s" and "jobs (db s) k = Some j" and "k \<notin> set (JOB_QUEUE s)"
  shows "jobs (db (worker_loop E s)) k = Some j"
  using assms
proof (induction E s rule: worker_loop.induct)
  case (1 E s)
  show ?case
  proof (cases "worker_alive s \<and> JOB_QUEUE s \<noteq> []")
    case True
    then obtain i rest where q: "JOB_QUEUE s = i # rest"
      by (cases "JOB_QUEUE s") auto
    have wl: "worker_loop E s = worker_loop E (worker_iteration E s)"
      using True worker_loop.simps [of E s] by auto
    obtain j2 where "JOB_QUEUE (worker_iteration E s) = rest"
      and "jobs (db (worker_iteration E s)) = (jobs (db s))(i \<mapsto> j2)"
      using work_head [OF "1.prems"(1) q, of E] by blast
    then have "jobs (db (worker_iteration E s)) k = Some j"
      and "k \<notin> set (JOB_QUEUE (worker_iteration E s))"
      using "1.prems"(2,3) q by auto
    then show ?thesis
      using "1.IH" [OF True inv_work [OF "1.prems"(1)]] wl by simp
  next
    case False
    then have "worker_loop E s = s"
      using worker_loop.simps [of E s] by auto
    then show ?thesis using "1.prems" by simp
  qed
qed

lemma worker_loop_terminal:
  assumes "inv s" and "k \<in> set (JOB_QUEUE s)"
  shows "\<exists>j. jobs (db (worker_loop E s)) k = Some j \<and> terminal (status j)"
  using assms
proof (induction E s rule: worker_loop.induct)
  case (1 E s)
  have alive: "worker_alive s" and dist: "distinct (JOB_QUEUE s)"
    using "1.prems"(1) by (simp_all add: inv_def)
  obtain i rest where q: "JOB_QUEUE s = i # rest"
    using "1.prems"(2) by (cases "JOB_QUEUE s") auto
  have c: "worker_alive s \<and> JOB_QUEUE s \<noteq> []"
    using alive q by simp
  have wl: "worker_loop E s = worker_loop E (worker_iteration E s)"
    using c worker_loop.simps [of E s] by auto
  obtain j2 where q': "JOB_QUEUE (worker_iteration E s) = rest"
    and jobs': "jobs (db (worker_iteration E s)) = (jobs (db s))(i \<mapsto> j2)"
    and t: "terminal (status j2)"
    using work_head [OF "1.prems"(1) q, of E] by blast
  have inv': "inv (worker_iteration E s)"
    by (rule inv_work [OF "1.prems"(1)])
  show ?case
  proof (cases "k = i")
    case True
    have "jobs (db (worker_loop E (worker_iteration E s))) i = Some j2"
      using dist q by (intro worker_loop_keeps [OF inv']) (simp_all add: jobs' q')
    then show ?thesis
      using True t wl by simp
  next
    case False
    then have "k \<in> set (JOB_QUEUE (worker_iteration E s))"
      using "1.prems"(2) q q' by simp
    from "1.IH" [OF c inv' this] show ?thesis
      using wl by simp
  qed
qed

subsection \<open>Evaluating two concrete runs\<close>

lemmas sys_defs = run_def demo_events_def enqueue_job_def worker_iteration_def run_pipeline_def
  progress_callback_def commit_job_def finally_block_def task_done_def init_system_def
  OUTPUT_DIR_def head_job_result_def

lemma demo_history:
  "history (db (run demo_env demo_world demo_events)) =
     [(1, Queued, 0), (2, Queued, 0),
      (1, Running, 5), (1, Running, 5), (1, Error, 0),
      (2, Running, 5), (2, Running, 5), (2, Running, 15), (2, Running, 35),
      (2, Running, 55), (2, Running, 80), (2, Running, 100), (2, Done, 100)]"
  by (simp add: sys_defs pj_defs demo_defs)

lemma demo_job_1:
  "jobs (db (run demo_env demo_world demo_events)) 1 =
     Some \<lparr>project_id = 1, audio_path = ''/app/uploads/missing.mp3'',
           video_path = ''/app/uploads/v.mp4'', output_path = None,
           status = Error, progress = 0, message = MsgJobError,
           error = Some ''[Errno 2] No such file or directory: /app/uploads/missing.mp3'',
           created_at = 200\<rparr>"
  by (simp add: sys_defs pj_defs demo_defs)

lemma demo_job_2:
  "jobs (db (run demo_env demo_world demo_events)) 2 =
     Some \<lparr>project_id = 1, audio_path = ''/app/uploads/a.mp3'',
           video_path = ''/app/uploads/v.mp4'',
           output_path = Some ''/app/outputs/final_20240101_120000_aaaa.mp4'',
           status = Done, progress = 100, message = MsgFinished, error = None,
           created_at = 100\<rparr>"
  by (simp add: sys_defs pj_defs demo_defs)

lemma demo_queue: "JOB_QUEUE (run demo_env demo_world demo_events) = []"
  by (simp add: sys_defs pj_defs demo_defs)

lemma queued_queue: "JOB_QUEUE (run demo_env demo_world queued_events) = [1, 2]"
  by (simp add: sys_defs queued_events_def)

lemma queued_head:
  "head_job_result demo_env (run demo_env demo_world queued_events) =
     Some (Inl (Exception ''[Errno 2] No such file or directory: /app/uploads/missing.mp3''))"
  by (simp add: sys_defs queued_events_def pj_defs demo_defs)

subsection \<open>The claims about the worker\<close>



text \<open>
  C3. In the committed states of any job, from its creation with progress 0 up to its
  terminal state, progress never decreases and stays in \<open>[0, 100]\<close>; the terminal
  state has progress exactly 100 (done) or exactly 0 (error). And the progress callback
  stores the reported percentage clamped into \<open>[0, 100]\<close> and commits exactly that.
\<close>

theorem progress_monotone_and_clamped:
  "progress_ok 0 (job_trace i (history (db (run E w evs))))
   \<and> (jobs d k = Some j \<longrightarrow>
        (\<exists>j'. jobs (progress_callback k percent msg d) k = Some j'
             \<and> 0 \<le> progress j' \<and> progress j' \<le> 100
             \<and> progress j' = max 0 (min 100 percent)
             \<and> history (progress_callback k percent msg d)
                 = history d @ [(k, status j', progress j')]))"
proof -
  have "trace_ok (db (run E w evs)) i"
    using inv_run [of E w evs] unfolding inv_def by blast
  then have "progress_ok 0 (job_trace i (history (db (run E w evs))))"
    by (auto simp: trace_ok_def split: option.splits if_splits)
  then show ?thesis
    by (auto simp: progress_callback_def commit_job_def)
qed

theorem progress_witness:
  "job_trace 2 (history (db (run demo_env demo_world demo_events))) =
     [(Queued, 0), (Running, 5), (Running, 5), (Running, 15), (Running, 35),
      (Running, 55), (Running, 80), (Running, 100), (Done, 100)]
   \<and> progress_ok 0 (job_trace 2 (history (db (run demo_env demo_world demo_events))))
   \<and> job_trace 1 (history (db (run demo_env demo_world demo_events))) =
     [(Queued, 0), (Running, 5), (Running, 5), (Error, 0)]
   \<and> progress_ok 0 (job_trace 1 (history (db (run demo_env demo_world demo_events))))
   \<and> (\<exists>j'. jobs (progress_callback 2 250 MsgRendering
                   (db (run demo_env demo_world demo_events))) 2 = Some j'
          \<and> 0 \<le> progress j' \<and> progress j' \<le> 100 \<and> progress j' = 100)"
proof -
  have t2: "job_trace 2 (history (db (run demo_env demo_world demo_events))) =
     [(Queued, 0), (Running, 5), (Running, 5), (Running, 15), (Running, 35),
      (Running, 55), (Running, 80), (Running, 100), (Done, 100)]"
    by (simp add: demo_history job_trace_def)
  have t1: "job_trace 1 (history (db (run demo_env demo_world demo_events))) =
     [(Queued, 0), (Running, 5), (Running, 5), (Error, 0)]"
    by (simp add: demo_history job_trace_def)
  show ?thesis
    using t1 t2 demo_job_2
      progress_monotone_and_clamped [where i = 2 and E = demo_env and w = demo_world
        and evs = demo_events and d = "db (run demo_env demo_world demo_events)" and k = 2
        and percent = 250 and msg = MsgRendering]
      progress_monotone_and_clamped [where i = 1 and E = demo_env and w = demo_world
        and evs = demo_events and d = "db (run demo_env demo_world demo_events)" and k = 2
        and percent = 250 and msg = MsgRendering]
    by auto
qed

text \<open>
  The path of a job whose row is there. In every history of enqueue requests and
  worker passes each queued id has its row; there the pass on a job ends with the
  worker alive and the queue advanced to the next entry, and if the pipeline raised
  \<open>e\<close>, the job's row has status error, progress 0, the error message and
  \<open>str(e)\<close> as its error detail. Running the loop on empties the queue with the
  worker alive, and every job that was waiting has reached a terminal status.
\<close>

lemma job_failure_confined:
  assumes "JOB_QUEUE (run E w evs) = i # rest"
  shows "worker_alive (worker_iteration E (run E w evs))
       \<and> JOB_QUEUE (worker_iteration E (run E w evs)) = rest
       \<and> head_job_result E (run E w evs) \<noteq> None
       \<and> (\<forall>e. head_job_result E (run E w evs) = Some (Inl e) \<longrightarrow>
             (\<exists>j. jobs (db (worker_iteration E (run E w evs))) i = Some j
                \<and> status j = Error \<and> progress j = 0 \<and> message j = MsgJobError
                \<and> error j = Some (str e)))
       \<and> worker_alive (worker_loop E (run E w evs))
       \<and> JOB_QUEUE (worker_loop E (run E w evs)) = []
       \<and> (\<forall>k \<in> set (JOB_QUEUE (run E w evs)).
             \<exists>j. jobs (db (worker_loop E (run E w evs))) k = Some j
                \<and> (status j = Done \<or> status j = Error))"
proof -
  let ?s = "run E w evs"
  have i: "inv ?s" by (rule inv_run)
  obtain j j2 where "jobs (db ?s) i = Some j"
      and "JOB_QUEUE (worker_iteration E ?s) = rest"
      and "worker_alive (worker_iteration E ?s)"
      and "jobs (db (worker_iteration E ?s)) = (jobs (db ?s))(i \<mapsto> j2)"
      and "head_job_result E ?s \<noteq> None"
      and "\<forall>e. head_job_result E ?s = Some (Inl e) \<longrightarrow>
            j2 = j\<lparr>status := Error, progress := 0, message := MsgJobError,
                   error := Some (str e)\<rparr>"
    using work_head [OF i assms, of E] by blast
  then have 1: "worker_alive (worker_iteration E ?s)
       \<and> JOB_QUEUE (worker_iteration E ?s) = rest
       \<and> head_job_result E ?s \<noteq> None
       \<and> (\<forall>e. head_job_result E ?s = Some (Inl e) \<longrightarrow>
             (\<exists>j. jobs (db (worker_iteration E ?s)) i = Some j
                \<and> status j = Error \<and> progress j = 0 \<and> message j = MsgJobError
                \<and> error j = Some (str e)))"
    by auto
  have 2: "worker_alive (worker_loop E ?s) \<and> JOB_QUEUE (worker_loop E ?s) = []"
    using worker_loop_inv [OF i, of E] by (simp add: inv_def)
  have 3: "\<forall>k \<in> set (JOB_QUEUE ?s).
             \<exists>j. jobs (db (worker_loop E ?s)) k = Some j \<and> (status j = Done \<or> status j = Error)"
    using worker_loop_terminal [OF i, of _ E] by (simp add: terminal_def)
  show ?thesis
    using 1 2 3 by blast
qed

lemma job_failure_confined_demo:
  "JOB_QUEUE (run demo_env demo_world queued_events) = [1, 2]
   \<and> head_job_result demo_env (run demo_env demo_world queued_events) =
        Some (Inl (Exception ''[Errno 2] No such file or directory: /app/uploads/missing.mp3''))
   \<and> worker_alive (worker_iteration demo_env (run demo_env demo_world queued_events))
   \<and> JOB_QUEUE (worker_iteration demo_env (run demo_env demo_world queued_events)) = [2]
   \<and> (\<exists>j. jobs (db (worker_iteration demo_env (run demo_env demo_world queued_events))) 1
             = Some j
          \<and> status j = Error \<and> progress j = 0 \<and> message j = MsgJobError
          \<and> error j = Some ''[Errno 2] No such file or directory: /app/uploads/missing.mp3'')
   \<and> worker_alive (worker_loop demo_env (run demo_env demo_world queued_events))
   \<and> JOB_QUEUE (worker_loop demo_env (run demo_env demo_world queued_events)) = []
   \<and> (\<exists>j. jobs (db (worker_loop demo_env (run demo_env demo_world queued_events))) 2 = Some j
          \<and> (status j = Done \<or> status j = Error))"
  using queued_queue queued_head job_failure_confined [OF queued_queue]
  by auto

text \<open>
  The branch for a missing row calls \<^verbatim>\<open>JOB_QUEUE.task_done()\<close> itself and then leaves
  through \<^verbatim>\<open>continue\<close>, which runs the \<^verbatim>\<open>finally\<close> block and calls it again. The pass is
  survived only when at least two tasks are unfinished, and then the counter is one
  short for the rest of the run.
\<close>

lemma missing_row_pass:
  assumes "worker_alive s" and "JOB_QUEUE s = i # rest" and "jobs (db s) i = None"
  shows "worker_alive (worker_iteration E s) = (2 \<le> unfinished_tasks s)"
    and "JOB_QUEUE (worker_iteration E s) = rest"
    and "2 \<le> unfinished_tasks s \<Longrightarrow>
           unfinished_tasks (worker_iteration E s) = unfinished_tasks s - 2"
  using assms
  by (simp_all add: worker_iteration_def finally_block_def task_done_def Let_def)

lemmas ghost_defs = ghost_state_def lone_ghost_state_def lose_row_def

text \<open>
  C5. The claim does not hold of the worker loop: a dequeued id whose row is gone ends
  the loop. Alone in the queue it ends the loop at once (the second
  \<^verbatim>\<open>task_done()\<close> raises \<^verbatim>\<open>ValueError\<close> outside every handler). Followed by a job, the
  pass on the missing row is survived, the job's own failure is caught and written to
  its row as status error, and then the \<^verbatim>\<open>task_done()\<close> of the \<^verbatim>\<open>finally\<close> block raises:
  the worker thread has ended, and a job enqueued afterwards stays queued.
\<close>

theorem missing_row_ends_worker_loop:
  "JOB_QUEUE lone_ghost_state = [1]
   \<and> jobs (db lone_ghost_state) 1 = None
   \<and> \<not> worker_alive (worker_iteration demo_env lone_ghost_state)
   \<and> JOB_QUEUE ghost_state = [1, 2]
   \<and> jobs (db ghost_state) 1 = None
   \<and> worker_alive (worker_iteration demo_env ghost_state)
   \<and> JOB_QUEUE (worker_iteration demo_env ghost_state) = [2]
   \<and> unfinished_tasks (worker_iteration demo_env ghost_state) = 0
   \<and> head_job_result demo_env (worker_iteration demo_env ghost_state)
        = Some (Inl (Exception ''[Errno 2] No such file or directory: /app/uploads/missing.mp3''))
   \<and> (\<exists>j. jobs (db (worker_iteration demo_env (worker_iteration demo_env ghost_state))) 2 = Some j
          \<and> status j = Error)
   \<and> \<not> worker_alive (worker_iteration demo_env (worker_iteration demo_env ghost_state))
   \<and> JOB_QUEUE (step demo_env
         (step demo_env (worker_iteration demo_env (worker_iteration demo_env ghost_state))
            (Enqueue 1 ''/app/uploads/a.mp3'' ''/app/uploads/v.mp4'' 300)) Work) = [3]
   \<and> (\<exists>j. jobs (db (step demo_env
         (step demo_env (worker_iteration demo_env (worker_iteration demo_env ghost_state))
            (Enqueue 1 ''/app/uploads/a.mp3'' ''/app/uploads/v.mp4'' 300)) Work)) 3 = Some j
          \<and> status j = Queued)"
  by (simp add: ghost_defs sys_defs pj_defs demo_defs)

text \<open>
  C6. In every history no two jobs' transitions interleave: a job starts running only
  when no other job is running (the cursor never fails, and the worker is idle at the
  end), and the jobs finish in exactly the order in which they were enqueued: the
  enqueued ids are the finished ids followed by the queue. The timestamps of the
  enqueue requests are arbitrary, so the order does not depend on them.
\<close>

theorem jobs_run_in_fifo_order:
  "cursor None (history (db (run E w evs))) = Some None
   \<and> created (history (db (run E w evs)))
       = finished (history (db (run E w evs))) @ JOB_QUEUE (run E w evs)"
  using inv_run [of E w evs] by (simp add: inv_def)

theorem fifo_witness:
  "finished (history (db (run demo_env demo_world demo_events))) = [1, 2]
   \<and> (\<exists>j1 j2. jobs (db (run demo_env demo_world demo_events)) 1 = Some j1
             \<and> jobs (db (run demo_env demo_world demo_events)) 2 = Some j2
             \<and> created_at j1 = 200 \<and> created_at j2 = 100)
   \<and> cursor None (history (db (run demo_env demo_world demo_events))) = Some None
   \<and> created (history (db (run demo_env demo_world demo_events)))
       = finished (history (db (run demo_env demo_world demo_events)))
           @ JOB_QUEUE (run demo_env demo_world demo_events)"
proof -
  have f: "finished (history (db (run demo_env demo_world demo_events))) = [1, 2]"
    by (simp add: demo_history finished_def terminal_def)
  show ?thesis
    using f demo_job_1 demo_job_2 jobs_run_in_fifo_order [of demo_env demo_world demo_events]
    by simp
qed

end
